theory Spec2Isabelle
  imports Complex_Main "HOL-Library.Monad_Syntax"
begin

section \<open>Numbers and vectors\<close>

text \<open>
  The numbers of \<^verbatim>\<open>sketch.js\<close> are modelled as reals: rounding and overflow are
  not part of the model. A JavaScript division whose divisor is zero yields
  \<^verbatim>\<open>Infinity\<close> or \<^verbatim>\<open>NaN\<close>; here it yields \<open>None\<close>, and every function that
  divides returns an option, so that \<open>None\<close> reads "a non-finite value arose".
\<close>

definition js_div :: "real \<Rightarrow> real \<Rightarrow> real option" where
  "js_div a b = (if b = 0 then None else Some (a / b))"

text \<open>
  A \<^verbatim>\<open>p5.Vector\<close> of the sketch has only its \<^verbatim>\<open>x\<close> and \<^verbatim>\<open>y\<close> components set
  (\<^verbatim>\<open>createVector(x, y)\<close> leaves \<^verbatim>\<open>z = 0\<close>), so it is a pair. The operations below
  are the ones of the p5 library that the sketch calls, componentwise as p5 documents
  them. The sketch mutates vectors in place; the model returns the new vector.
\<close>

type_synonym vector = "real \<times> real"

definition createVector :: "real \<Rightarrow> real \<Rightarrow> vector" where
  "createVector x y = (x, y)"

definition p5_add :: "vector \<Rightarrow> vector \<Rightarrow> vector" where
  "p5_add v w = (fst v + fst w, snd v + snd w)"

definition p5_sub :: "vector \<Rightarrow> vector \<Rightarrow> vector" where
  "p5_sub v w = (fst v - fst w, snd v - snd w)"

definition p5_mult :: "vector \<Rightarrow> real \<Rightarrow> vector" where
  "p5_mult v n = (fst v * n, snd v * n)"

text \<open>
  \<^verbatim>\<open>div\<close> by zero: p5 either divides componentwise (non-finite components) or, in
  its later versions, warns and leaves the vector as it is. The sketch divides a
  vector by the clamped distance, where a zero makes the next statement divide by
  \<^verbatim>\<open>r * r = 0\<close> as well, and by the mass, which the constructor sets to \<open>1\<close>; so
  the model stops with \<open>None\<close> here in both cases.
\<close>

definition p5_div :: "vector \<Rightarrow> real \<Rightarrow> vector option" where
  "p5_div v n = do { x \<leftarrow> js_div (fst v) n; y \<leftarrow> js_div (snd v) n; Some (x, y) }"

definition p5_mag :: "vector \<Rightarrow> real" where
  "p5_mag v = sqrt (fst v * fst v + snd v * snd v)"

text \<open>\<^verbatim>\<open>normalize\<close> scales by \<^verbatim>\<open>1 / len\<close> unless the length is zero.\<close>

definition p5_normalize :: "vector \<Rightarrow> vector" where
  "p5_normalize v = (let len = p5_mag v in if len \<noteq> 0 then p5_mult v (1 / len) else v)"

definition p5_dist :: "real \<Rightarrow> real \<Rightarrow> real \<Rightarrow> real \<Rightarrow> real" where
  "p5_dist x1 y1 x2 y2 = sqrt ((x2 - x1) * (x2 - x1) + (y2 - y1) * (y2 - y1))"

section \<open>Globals\<close>

text \<open>
  The globals that the control panel rewrites at run time (\<^verbatim>\<open>globalFriction\<close>,
  \<^verbatim>\<open>kCoulomb\<close>, \<^verbatim>\<open>minDistance\<close>) are the fields of a record passed to every function;
  the globals that are never assigned again are constants.
\<close>

record config =
  globalFriction :: real
  kCoulomb :: real
  minDistance :: real

definition defaults :: config where
  "defaults = \<lparr> globalFriction = 0.02, kCoulomb = 800, minDistance = 8 \<rparr>"

definition canvasWidth :: real where
  "canvasWidth = 1000"

definition canvasHeight :: real where
  "canvasHeight = 600"

definition streamlineStep :: real where
  "streamlineStep = 2.2"

definition maxStreamlineLen :: nat where
  "maxStreamlineLen = 600"

text \<open>
  \<^verbatim>\<open>width\<close> and \<^verbatim>\<open>height\<close> are p5's globals for the size of the canvas, which
  \<^verbatim>\<open>setup\<close> creates with \<^verbatim>\<open>createCanvas(canvasWidth, canvasHeight)\<close>.
\<close>

definition width :: real where
  "width = canvasWidth"

definition height :: real where
  "height = canvasHeight"

section \<open>The particle class\<close>

record particle =
  pos :: vector
  vel :: vector
  acc :: vector
  charge :: real
  mass :: real
  radius :: real

text \<open>The constructor (the colour is only drawn, and is left out).\<close>

definition Particle :: "real \<Rightarrow> real \<Rightarrow> real \<Rightarrow> particle" where
  "Particle x y c =
     \<lparr> pos = createVector x y, vel = createVector 0 0, acc = createVector 0 0,
       charge = c, mass = 1, radius = 5 \<rparr>"

definition applyForce :: "particle \<Rightarrow> vector \<Rightarrow> particle option" where
  "applyForce p force = do {
     f \<leftarrow> p5_div force (mass p);
     Some (p\<lparr>acc := p5_add (acc p) f\<rparr>)
   }"

definition handleEdgesX :: "particle \<Rightarrow> particle" where
  "handleEdgesX p =
     (if fst (pos p) < 0 then p\<lparr>pos := (0, snd (pos p)), vel := (fst (vel p) * (- 1), snd (vel p))\<rparr>
      else if fst (pos p) > canvasWidth
        then p\<lparr>pos := (canvasWidth, snd (pos p)), vel := (fst (vel p) * (- 1), snd (vel p))\<rparr>
      else p)"

definition handleEdgesY :: "particle \<Rightarrow> particle" where
  "handleEdgesY p =
     (if snd (pos p) < 0 then p\<lparr>pos := (fst (pos p), 0), vel := (fst (vel p), snd (vel p) * (- 1))\<rparr>
      else if snd (pos p) > canvasHeight
        then p\<lparr>pos := (fst (pos p), canvasHeight), vel := (fst (vel p), snd (vel p) * (- 1))\<rparr>
      else p)"

definition handleEdges :: "particle \<Rightarrow> particle" where
  "handleEdges p = handleEdgesY (handleEdgesX p)"

text \<open>
  \<^verbatim>\<open>update\<close>: its first four statements, one per binding, are \<open>advance\<close>; the fifth
  is the call of \<^verbatim>\<open>handleEdges\<close>.
\<close>

definition advance :: "config \<Rightarrow> particle \<Rightarrow> particle" where
  "advance cfg p =
     (let p1 = p\<lparr>vel := p5_mult (vel p) (1 - globalFriction cfg)\<rparr>;
          p2 = p1\<lparr>vel := p5_add (vel p1) (acc p1)\<rparr>;
          p3 = p2\<lparr>pos := p5_add (pos p2) (vel p2)\<rparr>;
          p4 = p3\<lparr>acc := (0, 0)\<rparr>
      in p4)"

definition update :: "config \<Rightarrow> particle \<Rightarrow> particle" where
  "update cfg p = handleEdges (advance cfg p)"

section \<open>Coulomb force\<close>

text \<open>The body of the inner loop, up to the two calls of \<^verbatim>\<open>applyForce\<close>.\<close>

definition clampedR :: "config \<Rightarrow> particle \<Rightarrow> particle \<Rightarrow> real" where
  "clampedR cfg p1 p2 =
     (let rVec = p5_sub (pos p1) (pos p2); r = p5_mag rVec
      in if r < minDistance cfg then minDistance cfg else r)"

definition forceMag :: "config \<Rightarrow> particle \<Rightarrow> particle \<Rightarrow> real option" where
  "forceMag cfg p1 p2 =
     (let r = clampedR cfg p1 p2 in js_div (kCoulomb cfg * charge p1 * charge p2) (r * r))"

definition pairForce :: "config \<Rightarrow> particle \<Rightarrow> particle \<Rightarrow> vector option" where
  "pairForce cfg p1 p2 = do {
     let rVec = p5_sub (pos p1) (pos p2);
     let r = clampedR cfg p1 p2;
     rHat \<leftarrow> p5_div rVec r;
     fm \<leftarrow> forceMag cfg p1 p2;
     Some (p5_mult rHat fm)
   }"

definition interact :: "config \<Rightarrow> particle \<Rightarrow> particle \<Rightarrow> (particle \<times> particle) option" where
  "interact cfg p1 p2 = do {
     force \<leftarrow> pairForce cfg p1 p2;
     p1' \<leftarrow> applyForce p1 force;
     p2' \<leftarrow> applyForce p2 (p5_mult force (- 1));
     Some (p1', p2')
   }"

text \<open>
  The two loops. The particles are objects that the loop body mutates through the
  references \<^verbatim>\<open>p1 = particles[i]\<close> and \<^verbatim>\<open>p2 = particles[j]\<close>; since \<open>i < j\<close> these are
  two different elements, and the model writes both back.
\<close>

function innerLoop :: "config \<Rightarrow> nat \<Rightarrow> nat \<Rightarrow> particle list \<Rightarrow> particle list option" where
  "innerLoop cfg i j ps =
     (if j < length ps then
        (case interact cfg (ps ! i) (ps ! j) of
           None \<Rightarrow> None
         | Some (p1', p2') \<Rightarrow> innerLoop cfg i (j + 1) (ps[i := p1', j := p2']))
      else Some ps)"
  by pat_completeness auto
termination
  by (relation "measure (\<lambda>(cfg, i, j, ps). length ps - j)") auto

declare innerLoop.simps [simp del]

lemma innerLoop_length: "innerLoop cfg i j ps = Some ps' \<Longrightarrow> length ps' = length ps"
proof (induction cfg i j ps rule: innerLoop.induct)
  case (1 cfg i j ps)
  show ?case
  proof (cases "j < length ps")
    case False
    with "1.prems" show ?thesis by (simp add: innerLoop.simps [of cfg i j ps])
  next
    case True
    with "1.prems" obtain p1' p2' where
      st: "interact cfg (ps ! i) (ps ! j) = Some (p1', p2')" and
      rest: "innerLoop cfg i (j + 1) (ps[i := p1', j := p2']) = Some ps'"
      by (auto simp: innerLoop.simps [of cfg i j ps] split: option.splits)
    from "1.IH" [OF True st refl rest] show ?thesis by simp
  qed
qed

function outerLoop :: "config \<Rightarrow> nat \<Rightarrow> particle list \<Rightarrow> particle list option" where
  "outerLoop cfg i ps =
     (if i < length ps then
        (case innerLoop cfg i (i + 1) ps of
           None \<Rightarrow> None
         | Some ps' \<Rightarrow> outerLoop cfg (i + 1) ps')
      else Some ps)"
  by pat_completeness auto
termination
  by (relation "measure (\<lambda>(cfg, i, ps). length ps - i)") (auto dest: innerLoop_length)

declare outerLoop.simps [simp del]

definition applyCoulombForces :: "config \<Rightarrow> particle list \<Rightarrow> particle list option" where
  "applyCoulombForces cfg ps = outerLoop cfg 0 ps"

text \<open>One frame of \<^verbatim>\<open>draw\<close>: the forces, then \<^verbatim>\<open>update\<close> on every particle.\<close>

definition tick :: "config \<Rightarrow> particle list \<Rightarrow> particle list option" where
  "tick cfg ps = do { ps' \<leftarrow> applyCoulombForces cfg ps; Some (map (update cfg) ps') }"

section \<open>Electric field\<close>

text \<open>
  The loop of \<^verbatim>\<open>computeElectricFieldAtPoint\<close> over the particles, with the running
  sums \<^verbatim>\<open>Ex\<close> and \<^verbatim>\<open>Ey\<close> (here \<open>eX\<close> and \<open>eY\<close>); \<^verbatim>\<open>continue\<close> is the recursive call on the unchanged sums.
\<close>

fun fieldLoop :: "config \<Rightarrow> real \<Rightarrow> real \<Rightarrow> particle list \<Rightarrow> real \<Rightarrow> real \<Rightarrow> vector option" where
  "fieldLoop cfg x y [] eX eY = Some (createVector eX eY)"
| "fieldLoop cfg x y (p # ps) eX eY =
     (let rx = x - fst (pos p);
          ry = y - snd (pos p);
          r2 = rx * rx + ry * ry
      in if r2 < minDistance cfg * minDistance cfg then fieldLoop cfg x y ps eX eY
         else do {
           let r = sqrt r2;
           E \<leftarrow> js_div (kCoulomb cfg * charge p) r2;
           ux \<leftarrow> js_div rx r;
           uy \<leftarrow> js_div ry r;
           fieldLoop cfg x y ps (eX + E * ux) (eY + E * uy)
         })"

definition computeElectricFieldAtPoint :: "config \<Rightarrow> particle list \<Rightarrow> real \<Rightarrow> real \<Rightarrow> vector option" where
  "computeElectricFieldAtPoint cfg ps x y = fieldLoop cfg x y ps 0 0"

section \<open>Field line tracing\<close>

text \<open>The inner loop of \<^verbatim>\<open>traceStreamline\<close>: has the point reached a negative charge?\<close>

fun reachedSink :: "particle list \<Rightarrow> real \<Rightarrow> real \<Rightarrow> bool" where
  "reachedSink [] x y = False"
| "reachedSink (p # ps) x y =
     (if charge p < 0 \<and> p5_dist x y (fst (pos p)) (snd (pos p)) < radius p + 4 then True
      else reachedSink ps x y)"

text \<open>
  The outer loop. Its counter \<^verbatim>\<open>i\<close> is not read by the body, so the model counts the
  iterations that are left: \<open>traceLoop cfg ps n x y pts\<close> is the state at
  \<open>i = maxStreamlineLen - n\<close>. Each \<^verbatim>\<open>break\<close> and the inner \<^verbatim>\<open>return pts\<close> end the
  recursion with the points pushed so far.
\<close>

fun traceLoop :: "config \<Rightarrow> particle list \<Rightarrow> nat \<Rightarrow> real \<Rightarrow> real \<Rightarrow> (real \<times> real) list
    \<Rightarrow> (real \<times> real) list option" where
  "traceLoop cfg ps 0 x y pts = Some pts"
| "traceLoop cfg ps (Suc n) x y pts =
     (case computeElectricFieldAtPoint cfg ps x y of
        None \<Rightarrow> None
      | Some E \<Rightarrow>
          (let mag = p5_mag E in
           if mag < 0.01 then Some pts
           else
             (let dir = p5_normalize E;
                  x' = x + fst dir * streamlineStep;
                  y' = y + snd dir * streamlineStep;
                  pts' = pts @ [(x', y')]
              in if x' < 0 \<or> x' > width \<or> y' < 0 \<or> y' > height then Some pts'
                 else if reachedSink ps x' y' then Some pts'
                 else traceLoop cfg ps n x' y' pts')))"

definition traceStreamline :: "config \<Rightarrow> particle list \<Rightarrow> real \<Rightarrow> real \<Rightarrow> (real \<times> real) list option" where
  "traceStreamline cfg ps startX startY = traceLoop cfg ps maxStreamlineLen startX startY []"

section \<open>Particle management\<close>

definition addParticle :: "particle list \<Rightarrow> real \<Rightarrow> real \<Rightarrow> real \<Rightarrow> particle list" where
  "addParticle ps x y c = ps @ [Particle x y c]"

text \<open>The test that \<^verbatim>\<open>getParticleAt\<close> and \<^verbatim>\<open>deleteParticleAt\<close> share.\<close>

definition hit :: "real \<Rightarrow> real \<Rightarrow> particle \<Rightarrow> bool" where
  "hit x y p = (p5_dist x y (fst (pos p)) (snd (pos p)) < radius p + 2)"

text \<open>\<^verbatim>\<open>getParticleAt\<close> walks the array from its first element; \<open>None\<close> is \<^verbatim>\<open>null\<close>.\<close>

fun getParticleAt :: "particle list \<Rightarrow> real \<Rightarrow> real \<Rightarrow> particle option" where
  "getParticleAt [] x y = None"
| "getParticleAt (p # ps) x y = (if hit x y p then Some p else getParticleAt ps x y)"

text \<open>
  \<^verbatim>\<open>deleteParticleAt\<close> counts \<^verbatim>\<open>i\<close> down from \<^verbatim>\<open>particles.length - 1\<close> to \<open>0\<close>;
  \<open>deleteLoop ps n x y\<close> is the loop at \<open>i = n - 1\<close>, and \<open>n = 0\<close> is its exit.
  \<^verbatim>\<open>splice(i, 1)\<close> removes the element at index \<open>i\<close>.
\<close>

definition splice1 :: "'a list \<Rightarrow> nat \<Rightarrow> 'a list" where
  "splice1 xs i = take i xs @ drop (Suc i) xs"

fun deleteLoop :: "particle list \<Rightarrow> nat \<Rightarrow> real \<Rightarrow> real \<Rightarrow> particle list" where
  "deleteLoop ps 0 x y = ps"
| "deleteLoop ps (Suc i) x y = (if hit x y (ps ! i) then splice1 ps i else deleteLoop ps i x y)"

definition deleteParticleAt :: "particle list \<Rightarrow> real \<Rightarrow> real \<Rightarrow> particle list" where
  "deleteParticleAt ps x y = deleteLoop ps (length ps) x y"

section \<open>The specification's formulas\<close>

text \<open>
  The field that the specification prescribes, written from its words: the sum, over
  the particles whose squared distance to the query point is at least
  \<open>minDistance\<^sup>2\<close>, of \<open>(k * charge / r\<^sup>2) * (r_vec / r)\<close>. The theorems below compare
  \<open>computeElectricFieldAtPoint\<close> with it.
\<close>

definition sqDist :: "real \<Rightarrow> real \<Rightarrow> particle \<Rightarrow> real" where
  "sqDist x y p = (x - fst (pos p)) * (x - fst (pos p)) + (y - snd (pos p)) * (y - snd (pos p))"

definition counted :: "config \<Rightarrow> real \<Rightarrow> real \<Rightarrow> particle \<Rightarrow> bool" where
  "counted cfg x y p = (sqDist x y p \<ge> (minDistance cfg)\<^sup>2)"

definition contribution :: "config \<Rightarrow> real \<Rightarrow> real \<Rightarrow> particle \<Rightarrow> vector" where
  "contribution cfg x y p =
     (let r_vec = (x - fst (pos p), y - snd (pos p));
          r = sqrt (sqDist x y p)
      in ((kCoulomb cfg * charge p / r\<^sup>2) * (fst r_vec / r),
          (kCoulomb cfg * charge p / r\<^sup>2) * (snd r_vec / r)))"

definition fieldSum :: "config \<Rightarrow> particle list \<Rightarrow> real \<Rightarrow> real \<Rightarrow> vector" where
  "fieldSum cfg ps x y =
     (\<Sum>p\<leftarrow>filter (counted cfg x y) ps. fst (contribution cfg x y p),
      \<Sum>p\<leftarrow>filter (counted cfg x y) ps. snd (contribution cfg x y p))"

text \<open>The closed rectangle of the canvas.\<close>

definition inCanvas :: "real \<times> real \<Rightarrow> bool" where
  "inCanvas pt = (0 \<le> fst pt \<and> fst pt \<le> width \<and> 0 \<le> snd pt \<and> snd pt \<le> height)"

text \<open>
  The Coulomb force on \<open>p\<close> due to \<open>q\<close> as the specification writes it: \<open>F * r_hat\<close>
  with \<open>r_vec = pos p - pos q\<close>, \<open>r\<close> the clamped distance, \<open>r_hat = r_vec / r\<close> and
  \<open>F = k * charge p * charge q / r\<^sup>2\<close>.
\<close>

definition coulomb :: "config \<Rightarrow> particle \<Rightarrow> particle \<Rightarrow> vector" where
  "coulomb cfg p q =
     (let r_vec = (fst (pos p) - fst (pos q), snd (pos p) - snd (pos q));
          r = clampedR cfg p q;
          F = kCoulomb cfg * charge p * charge q / r\<^sup>2
      in (F * (fst r_vec / r), F * (snd r_vec / r)))"

text \<open>
  The force that the two loops hand to \<^verbatim>\<open>particles[i].applyForce\<close> in the iteration of
  the pair \<open>{i, j}\<close>: the particle with the smaller index is \<^verbatim>\<open>p1\<close> and receives
  \<^verbatim>\<open>force\<close>, the other is \<^verbatim>\<open>p2\<close> and receives \<^verbatim>\<open>force.copy().mult(-1)\<close>.
\<close>

definition forceOn :: "config \<Rightarrow> particle list \<Rightarrow> nat \<Rightarrow> nat \<Rightarrow> vector" where
  "forceOn cfg ps i j =
     (if i < j then coulomb cfg (ps ! i) (ps ! j)
      else p5_mult (coulomb cfg (ps ! j) (ps ! i)) (- 1))"

definition vsum :: "vector list \<Rightarrow> vector" where
  "vsum vs = (\<Sum>v\<leftarrow>vs. fst v, \<Sum>v\<leftarrow>vs. snd v)"

text \<open>What one pass of the two loops adds to the accumulator of particle \<open>i\<close>.\<close>

definition netAccel :: "config \<Rightarrow> particle list \<Rightarrow> nat \<Rightarrow> vector" where
  "netAccel cfg ps i =
     vsum (map (\<lambda>j. (fst (forceOn cfg ps i j) / mass (ps ! i), snd (forceOn cfg ps i j) / mass (ps ! i)))
            (filter (\<lambda>j. j \<noteq> i) [0..<length ps]))"

text \<open>
  The five steps of the motion integrator in the order the specification gives them;
  the fifth, the reflection at the boundary, is \<open>handleEdges\<close> itself.
\<close>

definition spec_damp :: "config \<Rightarrow> particle \<Rightarrow> particle" where
  "spec_damp cfg p =
     p\<lparr>vel := (fst (vel p) * (1 - globalFriction cfg), snd (vel p) * (1 - globalFriction cfg))\<rparr>"

definition spec_accelerate :: "particle \<Rightarrow> particle" where
  "spec_accelerate p = p\<lparr>vel := (fst (vel p) + fst (acc p), snd (vel p) + snd (acc p))\<rparr>"

definition spec_move :: "particle \<Rightarrow> particle" where
  "spec_move p = p\<lparr>pos := (fst (pos p) + fst (vel p), snd (pos p) + snd (vel p))\<rparr>"

definition spec_reset :: "particle \<Rightarrow> particle" where
  "spec_reset p = p\<lparr>acc := (0, 0)\<rparr>"

text \<open>Two abbreviations of the proofs: a particle with its accumulator increased, and
  the acceleration that \<open>q\<close> gives to \<open>p\<close>.\<close>

definition gain :: "particle \<Rightarrow> vector \<Rightarrow> particle" where
  "gain p v = p\<lparr>acc := p5_add (acc p) v\<rparr>"

definition accelBy :: "config \<Rightarrow> particle \<Rightarrow> particle \<Rightarrow> vector" where
  "accelBy cfg p q = (fst (coulomb cfg p q) / mass p, snd (coulomb cfg p q) / mass p)"

section \<open>A square root that the examples meet\<close>

lemma sqrt_10000: "sqrt 10000 = 100"
  using real_sqrt_abs [of 100] by simp

section \<open>The electric field\<close>

lemma sqDist_nonneg: "0 \<le> sqDist x y p"
  by (simp add: sqDist_def)

lemma sqDist_zero_iff: "sqDist x y p = 0 \<longleftrightarrow> pos p = (x, y)"
proof -
  have "sqDist x y p = 0 \<longleftrightarrow> x - fst (pos p) = 0 \<and> y - snd (pos p) = 0"
    unfolding sqDist_def by (simp add: sum_squares_eq_zero_iff)
  also have "\<dots> \<longleftrightarrow> pos p = (x, y)"
    by (cases "pos p") auto
  finally show ?thesis .
qed

text \<open>
  A particle that is counted sits at a nonzero distance, unless \<open>minDistance\<close> is zero
  and the query point is the particle's own position: the one case in which the
  sketch divides by zero.
\<close>

lemma counted_nonzero:
  assumes "minDistance cfg \<noteq> 0 \<or> pos p \<noteq> (x, y)" and "counted cfg x y p"
  shows "sqDist x y p \<noteq> 0"
proof
  assume z: "sqDist x y p = 0"
  with assms(2) have "(minDistance cfg)\<^sup>2 \<le> 0" by (simp add: counted_def)
  then have "minDistance cfg = 0" by simp
  with assms(1) z show False by (simp add: sqDist_zero_iff)
qed

lemma fieldLoop_sum:
  assumes "\<forall>p \<in> set ps. counted cfg x y p \<longrightarrow> sqDist x y p \<noteq> 0"
  shows "fieldLoop cfg x y ps eX eY =
     Some (eX + (\<Sum>p\<leftarrow>filter (counted cfg x y) ps. fst (contribution cfg x y p)),
           eY + (\<Sum>p\<leftarrow>filter (counted cfg x y) ps. snd (contribution cfg x y p)))"
  using assms
proof (induction ps arbitrary: eX eY)
  case Nil
  then show ?case by (simp add: createVector_def)
next
  case (Cons p ps)
  from Cons.prems have rest: "\<forall>q \<in> set ps. counted cfg x y q \<longrightarrow> sqDist x y q \<noteq> 0"
    by simp
  note IH = Cons.IH [OF rest]
  show ?case
  proof (cases "counted cfg x y p")
    case False
    then have "sqDist x y p < minDistance cfg * minDistance cfg"
      by (simp add: counted_def power2_eq_square)
    with False IH show ?thesis
      by (simp add: sqDist_def Let_def)
  next
    case True
    then have ge: "\<not> sqDist x y p < minDistance cfg * minDistance cfg"
      by (simp add: counted_def power2_eq_square)
    from True Cons.prems have nz: "sqDist x y p \<noteq> 0" by simp
    then have snz: "sqrt (sqDist x y p) \<noteq> 0" by simp
    have sq: "(sqrt (sqDist x y p))\<^sup>2 = sqDist x y p"
      by (simp add: sqDist_nonneg)
    have step: "fieldLoop cfg x y (p # ps) eX eY =
        fieldLoop cfg x y ps (eX + fst (contribution cfg x y p)) (eY + snd (contribution cfg x y p))"
      using ge nz snz sq
      by (simp add: Let_def js_div_def contribution_def sqDist_def [symmetric] mult.commute)
    show ?thesis
      unfolding step using True by (simp add: IH add.assoc)
  qed
qed

lemma field_total:
  assumes "minDistance cfg \<noteq> 0 \<or> (\<forall>p \<in> set ps. pos p \<noteq> (x, y))"
  shows "computeElectricFieldAtPoint cfg ps x y = Some (fieldSum cfg ps x y)"
proof -
  have "\<forall>p \<in> set ps. counted cfg x y p \<longrightarrow> sqDist x y p \<noteq> 0"
    using assms counted_nonzero by blast
  from fieldLoop_sum [OF this, of 0 0] show ?thesis
    by (simp add: computeElectricFieldAtPoint_def fieldSum_def)
qed

text \<open>Without the hypothesis the sampler divides zero by zero.\<close>

lemma field_zero_divisor:
  "computeElectricFieldAtPoint (defaults\<lparr>minDistance := 0\<rparr>) [Particle 100 100 1] 100 100 = None"
  by (simp add: computeElectricFieldAtPoint_def Particle_def createVector_def js_div_def)

section \<open>The Coulomb force\<close>

lemma p5_mag_nonneg: "0 \<le> p5_mag v"
  by (simp add: p5_mag_def)

lemma p5_mag_zero_iff: "p5_mag v = 0 \<longleftrightarrow> v = (0, 0)"
  by (cases v) (simp add: p5_mag_def sum_squares_eq_zero_iff)

lemma p5_mag_sub_commute: "p5_mag (p5_sub v w) = p5_mag (p5_sub w v)"
proof -
  have "(a - b) * (a - b) = (b - a) * (b - a)" for a b :: real
    by (simp add: algebra_simps)
  then show ?thesis by (simp add: p5_mag_def p5_sub_def)
qed

lemma clampedR_commute: "clampedR cfg p q = clampedR cfg q p"
  by (simp add: clampedR_def p5_mag_sub_commute Let_def)

lemma clampedR_nonzero:
  assumes "0 < minDistance cfg \<or> pos p \<noteq> pos q"
  shows "clampedR cfg p q \<noteq> 0"
proof
  assume z: "clampedR cfg p q = 0"
  have m: "0 \<le> p5_mag (p5_sub (pos p) (pos q))" by (rule p5_mag_nonneg)
  from z have "p5_mag (p5_sub (pos p) (pos q)) = 0 \<and> minDistance cfg \<le> 0"
    using m by (auto simp: clampedR_def Let_def split: if_splits)
  then have "pos p = pos q \<and> minDistance cfg \<le> 0"
    by (auto simp: p5_mag_zero_iff p5_sub_def prod_eq_iff)
  with assms show False by auto
qed

lemma pairForce_coulomb:
  assumes "clampedR cfg p q \<noteq> 0"
  shows "pairForce cfg p q = Some (coulomb cfg p q)"
  using assms
  by (simp add: pairForce_def forceMag_def coulomb_def p5_div_def js_div_def p5_sub_def p5_mult_def
      Let_def power2_eq_square mult.commute)

lemma pairForce_fault:
  assumes "clampedR cfg p q = 0"
  shows "pairForce cfg p q = None"
  using assms by (simp add: pairForce_def p5_div_def js_div_def)

text \<open>The one way to a zero divisor: coinciding particles and no positive floor.\<close>

lemma pairForce_zero_divisor:
  "pairForce (defaults\<lparr>minDistance := 0\<rparr>) (Particle 100 100 1) (Particle 100 100 (- 1)) = None"
  by (rule pairForce_fault) (simp add: clampedR_def p5_sub_def p5_mag_def Particle_def)

lemma coulomb_antisym:
  "coulomb cfg q p = p5_mult (coulomb cfg p q) (- 1)"
proof -
  define r where "r = clampedR cfg p q"
  define F where "F = kCoulomb cfg * charge p * charge q / r\<^sup>2"
  have neg: "F * ((b - a) / r) = F * ((a - b) / r) * (- 1)" for a b :: real
  proof -
    have "(b - a) / r = - ((a - b) / r)"
      by (metis minus_diff_eq minus_divide_left)
    then show ?thesis by simp
  qed
  have k: "kCoulomb cfg * charge q * charge p = kCoulomb cfg * charge p * charge q"
    by simp
  have "coulomb cfg q p =
      (F * ((fst (pos q) - fst (pos p)) / r), F * ((snd (pos q) - snd (pos p)) / r))"
    unfolding coulomb_def Let_def fst_conv snd_conv clampedR_commute [of cfg q p] k F_def r_def ..
  also have "\<dots> = (F * ((fst (pos p) - fst (pos q)) / r) * (- 1), F * ((snd (pos p) - snd (pos q)) / r) * (- 1))"
    unfolding neg [of "fst (pos q)" "fst (pos p)"] neg [of "snd (pos q)" "snd (pos p)"] ..
  also have "\<dots> = p5_mult (coulomb cfg p q) (- 1)"
    unfolding coulomb_def Let_def p5_mult_def fst_conv snd_conv F_def r_def ..
  finally show ?thesis .
qed


lemma vsum_Nil [simp]: "vsum [] = (0, 0)"
  by (simp add: vsum_def)

lemma vsum_Cons [simp]: "vsum (v # vs) = p5_add v (vsum vs)"
  by (simp add: vsum_def p5_add_def)

lemma gain_fields [simp]:
  "pos (gain p v) = pos p" "vel (gain p v) = vel p" "charge (gain p v) = charge p"
  "mass (gain p v) = mass p" "radius (gain p v) = radius p" "acc (gain p v) = p5_add (acc p) v"
  by (simp_all add: gain_def)

lemma gain_gain [simp]: "gain (gain p v) w = gain p (p5_add v w)"
  by (simp add: gain_def p5_add_def add.assoc)

lemma gain_zero [simp]: "gain p (0, 0) = p"
  by (simp add: gain_def p5_add_def)

lemma clampedR_gain [simp]:
  "clampedR cfg (gain p v) q = clampedR cfg p q" "clampedR cfg p (gain q w) = clampedR cfg p q"
  by (simp_all add: clampedR_def)

lemma coulomb_gain [simp]:
  "coulomb cfg (gain p v) q = coulomb cfg p q" "coulomb cfg p (gain q w) = coulomb cfg p q"
  by (simp_all add: coulomb_def)

lemma accelBy_gain [simp]:
  "accelBy cfg (gain p v) q = accelBy cfg p q" "accelBy cfg p (gain q w) = accelBy cfg p q"
  by (simp_all add: accelBy_def)

lemma applyForce_gain:
  assumes "mass p \<noteq> 0"
  shows "applyForce p f = Some (gain p (fst f / mass p, snd f / mass p))"
  using assms by (simp add: applyForce_def p5_div_def js_div_def gain_def)

lemma interact_gain:
  assumes "clampedR cfg p q \<noteq> 0" and "mass p \<noteq> 0" and "mass q \<noteq> 0"
  shows "interact cfg p q = Some (gain p (accelBy cfg p q), gain q (accelBy cfg q p))"
  using assms
  by (simp add: interact_def pairForce_coulomb applyForce_gain accelBy_def coulomb_antisym [of cfg q p])


lemma innerLoop_gain:
  assumes "i < j"
    and "\<forall>a < length ps. mass (ps ! a) \<noteq> 0"
    and "\<forall>a < length ps. \<forall>b < length ps. a \<noteq> b \<longrightarrow> clampedR cfg (ps ! a) (ps ! b) \<noteq> 0"
  shows "innerLoop cfg i j ps =
     Some (map (\<lambda>k. if k = i then gain (ps ! k) (vsum (map (\<lambda>m. accelBy cfg (ps ! i) (ps ! m)) [j..<length ps]))
                     else if j \<le> k then gain (ps ! k) (accelBy cfg (ps ! k) (ps ! i))
                     else ps ! k) [0..<length ps])"
  using assms
proof (induction cfg i j ps rule: innerLoop.induct)
  case (1 cfg i j ps)
  let ?n = "length ps"
  let ?res = "\<lambda>qs k. if k = i then gain (qs ! k) (vsum (map (\<lambda>m. accelBy cfg (qs ! i) (qs ! m)) [j..<?n]))
                     else if j \<le> k then gain (qs ! k) (accelBy cfg (qs ! k) (qs ! i))
                     else qs ! k"
  show ?case
  proof (cases "j < ?n")
    case False
    have "map (?res ps) [0..<?n] = map (\<lambda>k. ps ! k) [0..<?n]"
      by (rule map_cong) (use False in auto)
    then show ?thesis
      using False by (simp add: innerLoop.simps [of cfg i j ps] map_nth)
  next
    case True
    define ai where "ai = accelBy cfg (ps ! i) (ps ! j)"
    define aj where "aj = accelBy cfg (ps ! j) (ps ! i)"
    define ps1 where "ps1 = ps[i := gain (ps ! i) ai, j := gain (ps ! j) aj]"
    have ij: "i < ?n" "i \<noteq> j" using "1.prems"(1) True by auto
    have st: "interact cfg (ps ! i) (ps ! j) = Some (gain (ps ! i) ai, gain (ps ! j) aj)"
      unfolding ai_def aj_def
      by (rule interact_gain) (use "1.prems" True ij in auto)
    have len1: "length ps1 = ?n" by (simp add: ps1_def)
    have nth1: "ps1 ! k = gain (ps ! k) (if k = i then ai else if k = j then aj else (0, 0))"
      if "k < ?n" for k
      using that ij by (simp add: ps1_def nth_list_update)
    have same: "accelBy cfg (ps1 ! a) (ps1 ! b) = accelBy cfg (ps ! a) (ps ! b)"
      if "a < ?n" "b < ?n" for a b
      using that by (simp add: nth1)
    have m1: "\<forall>a < length ps1. mass (ps1 ! a) \<noteq> 0"
      using "1.prems"(2) by (simp add: len1 nth1)
    have c1: "\<forall>a < length ps1. \<forall>b < length ps1. a \<noteq> b \<longrightarrow> clampedR cfg (ps1 ! a) (ps1 ! b) \<noteq> 0"
      using "1.prems"(3) by (simp add: len1 nth1)
    have lt: "i < j + 1" using "1.prems"(1) by simp
    note IH = "1.IH" [OF True st refl, folded ps1_def, OF lt m1 c1]
    have "innerLoop cfg i j ps = innerLoop cfg i (j + 1) ps1"
      using True st by (simp add: innerLoop.simps [of cfg i j ps] ps1_def)
    also note IH
    also have "map (\<lambda>k. if k = i then gain (ps1 ! k) (vsum (map (\<lambda>m. accelBy cfg (ps1 ! i) (ps1 ! m)) [j + 1..<length ps1]))
                     else if j + 1 \<le> k then gain (ps1 ! k) (accelBy cfg (ps1 ! k) (ps1 ! i))
                     else ps1 ! k) [0..<length ps1] = map (?res ps) [0..<?n]"
      unfolding len1
    proof (rule map_cong [OF refl])
      fix k assume "k \<in> set [0..<?n]"
      then have k: "k < ?n" by simp
      have sum1: "vsum (map (\<lambda>m. accelBy cfg (ps1 ! i) (ps1 ! m)) [j + 1..<?n])
          = vsum (map (\<lambda>m. accelBy cfg (ps ! i) (ps ! m)) [j + 1..<?n])"
        by (rule arg_cong [where f = vsum], rule map_cong [OF refl]) (simp add: same ij)
      have split: "[j..<?n] = j # [j + 1..<?n]"
        using True by (simp add: upt_conv_Cons)
      show "(if k = i then gain (ps1 ! k) (vsum (map (\<lambda>m. accelBy cfg (ps1 ! i) (ps1 ! m)) [j + 1..<?n]))
                     else if j + 1 \<le> k then gain (ps1 ! k) (accelBy cfg (ps1 ! k) (ps1 ! i))
                     else ps1 ! k) = ?res ps k"
      proof (cases "k = i")
        case True
        then show ?thesis
          unfolding sum1 split using ij by (simp add: nth1 ai_def)
      next
        case False
        show ?thesis
        proof (cases "k = j")
          case True
          with ij k show ?thesis by (simp add: nth1 aj_def)
        next
          case kj: False
          with False k ij show ?thesis by (simp add: nth1 same)
        qed
      qed
    qed
    finally show ?thesis .
  qed
qed


lemma outerLoop_gain:
  assumes "\<forall>a < length ps. mass (ps ! a) \<noteq> 0"
    and "\<forall>a < length ps. \<forall>b < length ps. a \<noteq> b \<longrightarrow> clampedR cfg (ps ! a) (ps ! b) \<noteq> 0"
  shows "outerLoop cfg i ps =
     Some (map (\<lambda>k. if k < i then ps ! k
                     else gain (ps ! k) (vsum (map (\<lambda>m. accelBy cfg (ps ! k) (ps ! m))
                                                (filter (\<lambda>m. m \<noteq> k) [i..<length ps]))))
             [0..<length ps])"
  using assms
proof (induction cfg i ps rule: outerLoop.induct)
  case (1 cfg i ps)
  let ?n = "length ps"
  let ?res = "\<lambda>k. if k < i then ps ! k
                     else gain (ps ! k) (vsum (map (\<lambda>m. accelBy cfg (ps ! k) (ps ! m))
                                                (filter (\<lambda>m. m \<noteq> k) [i..<?n])))"
  show ?case
  proof (cases "i < ?n")
    case False
    have "map ?res [0..<?n] = map (\<lambda>k. ps ! k) [0..<?n]"
      by (rule map_cong) (use False in auto)
    then show ?thesis
      using False by (simp add: outerLoop.simps [of cfg i ps] map_nth)
  next
    case True
    define d where "d = (\<lambda>k. if k = i then vsum (map (\<lambda>m. accelBy cfg (ps ! i) (ps ! m)) [i + 1..<?n])
                     else if i + 1 \<le> k then accelBy cfg (ps ! k) (ps ! i) else (0, 0))"
    define ps1 where "ps1 = map (\<lambda>k. gain (ps ! k) (d k)) [0..<?n]"
    have inner: "innerLoop cfg i (i + 1) ps = Some ps1"
      unfolding ps1_def d_def
      by (subst innerLoop_gain) (use "1.prems" in \<open>auto intro!: map_cong\<close>)
    have len1: "length ps1 = ?n" by (simp add: ps1_def)
    have nth1: "ps1 ! k = gain (ps ! k) (d k)" if "k < ?n" for k
      using that by (simp add: ps1_def)
    have same: "accelBy cfg (ps1 ! a) (ps1 ! b) = accelBy cfg (ps ! a) (ps ! b)"
      if "a < ?n" "b < ?n" for a b
      using that by (simp add: nth1)
    have m1: "\<forall>a < length ps1. mass (ps1 ! a) \<noteq> 0"
      using "1.prems"(1) by (simp add: len1 nth1)
    have c1: "\<forall>a < length ps1. \<forall>b < length ps1. a \<noteq> b \<longrightarrow> clampedR cfg (ps1 ! a) (ps1 ! b) \<noteq> 0"
      using "1.prems"(2) by (simp add: len1 nth1)
    note IH = "1.IH" [OF True inner m1 c1]
    have "outerLoop cfg i ps = outerLoop cfg (i + 1) ps1"
      using True inner by (simp add: outerLoop.simps [of cfg i ps])
    also note IH
    also have "map (\<lambda>k. if k < i + 1 then ps1 ! k
                     else gain (ps1 ! k) (vsum (map (\<lambda>m. accelBy cfg (ps1 ! k) (ps1 ! m))
                                                (filter (\<lambda>m. m \<noteq> k) [i + 1..<length ps1]))))
             [0..<length ps1] = map ?res [0..<?n]"
      unfolding len1
    proof (rule map_cong [OF refl])
      fix k assume "k \<in> set [0..<?n]"
      then have k: "k < ?n" by simp
      have sum1: "vsum (map (\<lambda>m. accelBy cfg (ps1 ! k) (ps1 ! m)) (filter (\<lambda>m. m \<noteq> k) [i + 1..<?n]))
          = vsum (map (\<lambda>m. accelBy cfg (ps ! k) (ps ! m)) (filter (\<lambda>m. m \<noteq> k) [i + 1..<?n]))"
        by (rule arg_cong [where f = vsum], rule map_cong [OF refl]) (simp add: same k)
      have split: "[i..<?n] = i # [i + 1..<?n]"
        using True by (simp add: upt_conv_Cons)
      have rest: "filter (\<lambda>m. m \<noteq> i) [i + 1..<?n] = [i + 1..<?n]"
        by (rule filter_True) simp
      show "(if k < i + 1 then ps1 ! k
                     else gain (ps1 ! k) (vsum (map (\<lambda>m. accelBy cfg (ps1 ! k) (ps1 ! m))
                                                (filter (\<lambda>m. m \<noteq> k) [i + 1..<?n])))) = ?res k"
      proof (cases k i rule: linorder_cases)
        case less
        with k show ?thesis by (simp add: nth1 d_def)
      next
        case equal
        with k show ?thesis unfolding split by (simp add: nth1 d_def rest)
      next
        case greater
        with k show ?thesis unfolding sum1 split by (simp add: nth1 d_def)
      qed
    qed
    finally show ?thesis .
  qed
qed

lemma forceOn_coulomb: "i \<noteq> j \<Longrightarrow> forceOn cfg ps i j = coulomb cfg (ps ! i) (ps ! j)"
  by (simp add: forceOn_def coulomb_antisym [of cfg "ps ! i" "ps ! j"])

lemma netAccel_accelBy:
  "netAccel cfg ps i =
     vsum (map (\<lambda>j. accelBy cfg (ps ! i) (ps ! j)) (filter (\<lambda>j. j \<noteq> i) [0..<length ps]))"
  unfolding netAccel_def
  by (rule arg_cong [where f = vsum], rule map_cong [OF refl]) (simp add: forceOn_coulomb accelBy_def)

lemma no_fault_pairs:
  assumes "0 < minDistance cfg \<or> distinct (map pos ps)"
  shows "\<forall>a < length ps. \<forall>b < length ps. a \<noteq> b \<longrightarrow> clampedR cfg (ps ! a) (ps ! b) \<noteq> 0"
proof (intro allI impI)
  fix a b assume ab: "a < length ps" "b < length ps" "a \<noteq> b"
  have "0 < minDistance cfg \<or> pos (ps ! a) \<noteq> pos (ps ! b)"
  proof (cases "0 < minDistance cfg")
    case True
    then show ?thesis ..
  next
    case False
    with assms have "distinct (map pos ps)" by simp
    with ab have "pos (ps ! a) \<noteq> pos (ps ! b)"
      using nth_eq_iff_index_eq [of "map pos ps" a b] by simp
    then show ?thesis ..
  qed
  then show "clampedR cfg (ps ! a) (ps ! b) \<noteq> 0" by (rule clampedR_nonzero)
qed

lemma applyCoulombForces_net:
  assumes "0 < minDistance cfg \<or> distinct (map pos ps)" and "\<forall>p \<in> set ps. mass p \<noteq> 0"
  shows "applyCoulombForces cfg ps =
     Some (map (\<lambda>i. (ps ! i)\<lparr>acc := p5_add (acc (ps ! i)) (netAccel cfg ps i)\<rparr>) [0..<length ps])"
proof -
  have m: "\<forall>a < length ps. mass (ps ! a) \<noteq> 0" using assms(2) by simp
  note outerLoop_gain [OF m no_fault_pairs [OF assms(1)], of 0]
  then show ?thesis
    by (simp add: applyCoulombForces_def netAccel_accelBy gain_def)
qed

lemma applyCoulombForces_two:
  "applyCoulombForces cfg [p1, p2] =
     (case interact cfg p1 p2 of None \<Rightarrow> None | Some (a, b) \<Rightarrow> Some [a, b])"
  by (simp add: applyCoulombForces_def outerLoop.simps innerLoop.simps split: option.splits)

lemma coulomb_scenario:
  "coulomb (defaults\<lparr>globalFriction := 0\<rparr>) (Particle 100 100 1) (Particle 200 100 (- 1)) = (0.08, 0)"
  by (simp add: coulomb_def clampedR_def Particle_def defaults_def createVector_def
      p5_sub_def p5_mag_def sqrt_10000)

lemma forces_scenario:
  "applyCoulombForces (defaults\<lparr>globalFriction := 0\<rparr>) [Particle 100 100 1, Particle 200 100 (- 1)]
     = Some [(Particle 100 100 1)\<lparr>acc := (0.08, 0)\<rparr>, (Particle 200 100 (- 1))\<lparr>acc := (- 0.08, 0)\<rparr>]"
proof -
  let ?cfg = "defaults\<lparr>globalFriction := 0\<rparr>"
  let ?p = "Particle 100 100 1" and ?q = "Particle 200 100 (- 1)"
  have r: "clampedR ?cfg ?p ?q \<noteq> 0"
    by (rule clampedR_nonzero) (simp add: defaults_def)
  have "interact ?cfg ?p ?q = Some (gain ?p (accelBy ?cfg ?p ?q), gain ?q (accelBy ?cfg ?q ?p))"
    by (rule interact_gain [OF r]) (simp_all add: Particle_def)
  also have "accelBy ?cfg ?p ?q = (0.08, 0)"
    by (simp add: accelBy_def coulomb_scenario) (simp add: Particle_def)
  also have "accelBy ?cfg ?q ?p = (- 0.08, 0)"
    by (simp add: accelBy_def coulomb_antisym [of ?cfg ?q ?p] coulomb_scenario p5_mult_def)
       (simp add: Particle_def)
  finally show ?thesis
    by (simp add: applyCoulombForces_two) (simp add: gain_def Particle_def createVector_def p5_add_def)
qed

section \<open>The motion integrator\<close>

lemma handleEdges_cases:
  "pos (handleEdges q) =
     (if fst (pos q) < 0 then 0 else if fst (pos q) > canvasWidth then canvasWidth else fst (pos q),
      if snd (pos q) < 0 then 0 else if snd (pos q) > canvasHeight then canvasHeight else snd (pos q))"
  "vel (handleEdges q) =
     (if fst (pos q) < 0 \<or> fst (pos q) > canvasWidth then - fst (vel q) else fst (vel q),
      if snd (pos q) < 0 \<or> snd (pos q) > canvasHeight then - snd (vel q) else snd (vel q))"
  "acc (handleEdges q) = acc q" "charge (handleEdges q) = charge q"
  "mass (handleEdges q) = mass q" "radius (handleEdges q) = radius q"
  by (simp_all add: handleEdges_def handleEdgesX_def handleEdgesY_def)

lemma advance_closed:
  "advance cfg p = p\<lparr>
      pos := (fst (pos p) + (fst (vel p) * (1 - globalFriction cfg) + fst (acc p)),
              snd (pos p) + (snd (vel p) * (1 - globalFriction cfg) + snd (acc p))),
      vel := (fst (vel p) * (1 - globalFriction cfg) + fst (acc p),
              snd (vel p) * (1 - globalFriction cfg) + snd (acc p)),
      acc := (0, 0)\<rparr>"
  by (simp add: advance_def p5_mult_def p5_add_def Let_def)

lemma tick_in_canvas:
  assumes "tick cfg ps = Some ps'" and "p' \<in> set ps'"
  shows "0 \<le> fst (pos p') \<and> fst (pos p') \<le> canvasWidth \<and>
         0 \<le> snd (pos p') \<and> snd (pos p') \<le> canvasHeight"
proof -
  from assms obtain q where "p' = update cfg q"
    by (auto simp: tick_def split: Option.bind_splits)
  then show ?thesis
    by (simp add: update_def handleEdges_cases canvasWidth_def canvasHeight_def)
qed

section \<open>Hit test and deletion\<close>

lemma getParticleAt_None: "getParticleAt ps x y = None \<longleftrightarrow> (\<forall>p \<in> set ps. \<not> hit x y p)"
  by (induction ps) auto

lemma getParticleAt_first:
  assumes "i < length ps" and "hit x y (ps ! i)" and "\<forall>k < i. \<not> hit x y (ps ! k)"
  shows "getParticleAt ps x y = Some (ps ! i)"
  using assms
proof (induction ps arbitrary: i)
  case Nil
  then show ?case by simp
next
  case (Cons p ps)
  show ?case
  proof (cases i)
    case 0
    with Cons.prems show ?thesis by simp
  next
    case (Suc k)
    with Cons.prems have nh: "\<not> hit x y p" by auto
    from Suc Cons.prems have "k < length ps" "hit x y (ps ! k)" "\<forall>m < k. \<not> hit x y (ps ! m)"
      by auto
    from Cons.IH [OF this] nh Suc show ?thesis by simp
  qed
qed

lemma getParticleAt_Some:
  assumes "getParticleAt ps x y = Some p"
  shows "\<exists>i < length ps. ps ! i = p \<and> hit x y p \<and> (\<forall>k < i. \<not> hit x y (ps ! k))"
  using assms
proof (induction ps)
  case Nil
  then show ?case by simp
next
  case (Cons q ps)
  show ?case
  proof (cases "hit x y q")
    case True
    with Cons.prems have "q = p" by simp
    with True show ?thesis by (intro exI [of _ 0]) simp
  next
    case False
    with Cons.prems have "getParticleAt ps x y = Some p" by simp
    from Cons.IH [OF this] obtain i where
      i: "i < length ps" "ps ! i = p" "hit x y p" "\<forall>k < i. \<not> hit x y (ps ! k)" by blast
    have "\<forall>k < Suc i. \<not> hit x y ((q # ps) ! k)"
      using False i(4) by (auto simp: less_Suc_eq_0_disj)
    with i show ?thesis by (intro exI [of _ "Suc i"]) simp
  qed
qed

lemma deleteLoop_none:
  "n \<le> length ps \<Longrightarrow> \<forall>k < n. \<not> hit x y (ps ! k) \<Longrightarrow> deleteLoop ps n x y = ps"
  by (induction n) auto

lemma deleteLoop_last:
  "i < n \<Longrightarrow> hit x y (ps ! i) \<Longrightarrow> \<forall>k. i < k \<and> k < n \<longrightarrow> \<not> hit x y (ps ! k) \<Longrightarrow>
   deleteLoop ps n x y = splice1 ps i"
proof (induction n)
  case 0
  then show ?case by simp
next
  case (Suc n)
  show ?case
  proof (cases "i = n")
    case True
    with Suc.prems show ?thesis by simp
  next
    case False
    with Suc.prems have "i < n" "\<not> hit x y (ps ! n)" by auto
    with Suc show ?thesis by simp
  qed
qed

lemma deleteParticleAt_none:
  "\<forall>p \<in> set ps. \<not> hit x y p \<Longrightarrow> deleteParticleAt ps x y = ps"
  unfolding deleteParticleAt_def by (rule deleteLoop_none) auto

lemma deleteParticleAt_last:
  "i < length ps \<Longrightarrow> hit x y (ps ! i) \<Longrightarrow> \<forall>k. i < k \<and> k < length ps \<longrightarrow> \<not> hit x y (ps ! k) \<Longrightarrow>
   deleteParticleAt ps x y = take i ps @ drop (Suc i) ps"
  unfolding deleteParticleAt_def by (simp add: deleteLoop_last splice1_def)

section \<open>Field lines\<close>

lemma p5_mag_on_axis: "p5_mag (a, 0) = \<bar>a\<bar>"
  by (simp add: p5_mag_def)

lemma p5_dist_same_y: "p5_dist x y x2 y = \<bar>x2 - x\<bar>"
  by (simp add: p5_dist_def)

lemma p5_normalize_on_axis: "a \<noteq> 0 \<Longrightarrow> p5_normalize (a, 0) = (sgn a, 0)"
  by (simp add: p5_normalize_def p5_mag_on_axis p5_mult_def sgn_real_def)

lemma contribution_on_axis:
  assumes "snd (pos p) = y" and "x \<noteq> fst (pos p)"
  shows "contribution cfg x y p =
     (kCoulomb cfg * charge p / (x - fst (pos p))\<^sup>2 * sgn (x - fst (pos p)), 0)"
proof -
  define d where "d = x - fst (pos p)"
  have d: "d \<noteq> 0" using assms(2) by (simp add: d_def)
  have s: "sqDist x y p = d * d" by (simp add: sqDist_def d_def assms(1))
  have r: "sqrt (d * d) = \<bar>d\<bar>" by simp
  have "d / \<bar>d\<bar> = sgn d" using d by (simp add: sgn_real_def)
  then show ?thesis
    unfolding contribution_def Let_def s r by (simp add: d_def assms(1))
qed

lemma field_on_axis:
  assumes "snd (pos p) = y" and "(minDistance cfg)\<^sup>2 \<le> (x - fst (pos p))\<^sup>2" and "x \<noteq> fst (pos p)"
  shows "computeElectricFieldAtPoint cfg [p] x y =
     Some (kCoulomb cfg * charge p / (x - fst (pos p))\<^sup>2 * sgn (x - fst (pos p)), 0)"
proof -
  have c: "counted cfg x y p"
    using assms(1,2) by (simp add: counted_def sqDist_def power2_eq_square)
  have "pos p \<noteq> (x, y)" using assms(3) by auto
  then have "computeElectricFieldAtPoint cfg [p] x y = Some (fieldSum cfg [p] x y)"
    by (simp add: field_total)
  also have "fieldSum cfg [p] x y =
     (kCoulomb cfg * charge p / (x - fst (pos p))\<^sup>2 * sgn (x - fst (pos p)), 0)"
    using c by (simp add: fieldSum_def contribution_on_axis [OF assms(1,3)])
  finally show ?thesis .
qed

lemma traceLoop_weak:
  assumes "computeElectricFieldAtPoint cfg ps x y = Some E" and "p5_mag E < 0.01"
  shows "traceLoop cfg ps n x y pts = Some pts"
  using assms by (cases n) (simp_all add: Let_def)

lemma traceLoop_exit:
  assumes "computeElectricFieldAtPoint cfg ps x y = Some E" and "\<not> p5_mag E < 0.01"
    and "x' = x + fst (p5_normalize E) * streamlineStep"
    and "y' = y + snd (p5_normalize E) * streamlineStep"
    and "x' < 0 \<or> x' > width \<or> y' < 0 \<or> y' > height \<or> reachedSink ps x' y'"
  shows "traceLoop cfg ps (Suc n) x y pts = Some (pts @ [(x', y')])"
  using assms by (auto simp: Let_def)

lemma traceLoop_continue:
  assumes "computeElectricFieldAtPoint cfg ps x y = Some E" and "\<not> p5_mag E < 0.01"
    and "x' = x + fst (p5_normalize E) * streamlineStep"
    and "y' = y + snd (p5_normalize E) * streamlineStep"
    and "0 \<le> x'" "x' \<le> width" "0 \<le> y'" "y' \<le> height" "\<not> reachedSink ps x' y'"
  shows "traceLoop cfg ps (Suc n) x y pts = traceLoop cfg ps n x' y' (pts @ [(x', y')])"
  using assms by (auto simp: Let_def)

lemma maxStreamlineLen_Suc: "maxStreamlineLen = Suc (Suc 598)"
  by (simp add: maxStreamlineLen_def)

lemma field_108:
  "computeElectricFieldAtPoint defaults [Particle 100 100 (- 1)] 108 100 = Some (- 12.5, 0)"
  using field_on_axis [of "Particle 100 100 (- 1)" 100 defaults 108]
  by (simp add: Particle_def defaults_def createVector_def)

lemma trace_into_sink:
  "traceStreamline defaults [Particle 100 100 (- 1)] 108 100 = Some [(105.8, 100)]"
proof -
  have "traceLoop defaults [Particle 100 100 (- 1)] (Suc (Suc 598)) 108 100 [] = Some ([] @ [(105.8, 100)])"
  proof (rule traceLoop_exit [OF field_108])
    show "\<not> p5_mag (- 12.5, 0) < 0.01" by (simp add: p5_mag_on_axis)
    show "105.8 = 108 + fst (p5_normalize (- 12.5, 0)) * streamlineStep"
      by (simp add: p5_normalize_on_axis streamlineStep_def)
    show "100 = 100 + snd (p5_normalize (- 12.5, 0)) * streamlineStep"
      by (simp add: p5_normalize_on_axis)
    have "reachedSink [Particle 100 100 (- 1)] 105.8 100"
      by (simp add: Particle_def createVector_def p5_dist_same_y)
    then show "105.8 < 0 \<or> 105.8 > width \<or> 100 < 0 \<or> 100 > height
       \<or> reachedSink [Particle 100 100 (- 1)] 105.8 100" by blast
  qed
  then show ?thesis by (simp add: traceStreamline_def maxStreamlineLen_Suc)
qed

lemma field_3:
  "computeElectricFieldAtPoint defaults [Particle 12 100 1] 3 100 = Some (- (800 / 81), 0)"
  using field_on_axis [of "Particle 12 100 1" 100 defaults 3]
  by (simp add: Particle_def defaults_def createVector_def)

lemma field_08:
  "computeElectricFieldAtPoint defaults [Particle 12 100 1] 0.8 100 = Some (- (800 / 125.44), 0)"
  using field_on_axis [of "Particle 12 100 1" 100 defaults "0.8"]
  by (simp add: Particle_def defaults_def createVector_def power2_eq_square)

lemma trace_off_canvas:
  "traceStreamline defaults [Particle 12 100 1] 3 100 = Some [(0.8, 100), (- 1.4, 100)]"
proof -
  have "traceLoop defaults [Particle 12 100 1] (Suc (Suc 598)) 3 100 []
      = traceLoop defaults [Particle 12 100 1] (Suc 598) 0.8 100 ([] @ [(0.8, 100)])"
  proof (rule traceLoop_continue [OF field_3])
    show "\<not> p5_mag (- (800 / 81), 0) < 0.01" by (simp add: p5_mag_on_axis)
    show "0.8 = 3 + fst (p5_normalize (- (800 / 81), 0)) * streamlineStep"
      by (simp add: p5_normalize_on_axis streamlineStep_def)
    show "100 = 100 + snd (p5_normalize (- (800 / 81), 0)) * streamlineStep"
      by (simp add: p5_normalize_on_axis)
  qed (simp_all add: width_def height_def canvasWidth_def canvasHeight_def Particle_def)
  also have "\<dots> = Some (([] @ [(0.8, 100)]) @ [(- 1.4, 100)])"
  proof (rule traceLoop_exit [OF field_08])
    show "\<not> p5_mag (- (800 / 125.44), 0) < 0.01" by (simp add: p5_mag_on_axis)
    show "- 1.4 = 0.8 + fst (p5_normalize (- (800 / 125.44), 0)) * streamlineStep"
      by (simp add: p5_normalize_on_axis streamlineStep_def)
    show "100 = 100 + snd (p5_normalize (- (800 / 125.44), 0)) * streamlineStep"
      by (simp add: p5_normalize_on_axis)
  qed simp
  finally show ?thesis by (simp add: traceStreamline_def maxStreamlineLen_Suc)
qed

lemma reachedSink_iff:
  "reachedSink ps x y \<longleftrightarrow>
     (\<exists>p \<in> set ps. charge p < 0 \<and> p5_dist x y (fst (pos p)) (snd (pos p)) < radius p + 4)"
  by (induction ps) auto

lemma traceLoop_total:
  assumes "minDistance cfg \<noteq> 0"
  shows "\<exists>pts'. traceLoop cfg ps n x y pts = Some pts'"
proof (induction n arbitrary: x y pts)
  case 0
  show ?case by simp
next
  case (Suc n)
  have f: "computeElectricFieldAtPoint cfg ps x y = Some (fieldSum cfg ps x y)"
    using assms by (simp add: field_total)
  show ?case
    using Suc by (simp add: f Let_def)
qed

lemma traceLoop_length:
  "traceLoop cfg ps n x y pts = Some pts' \<Longrightarrow> length pts' \<le> length pts + n"
proof (induction n arbitrary: x y pts)
  case 0
  then show ?case by simp
next
  case (Suc n)
  from Suc.prems obtain E where "computeElectricFieldAtPoint cfg ps x y = Some E"
    by (auto split: option.splits)
  with Suc.prems show ?case
    by (auto simp: Let_def split: if_splits dest!: Suc.IH)
qed

lemma traceLoop_butlast:
  assumes "traceLoop cfg ps n x y pts = Some pts'"
    and "\<forall>pt \<in> set pts. inCanvas pt \<and> \<not> reachedSink ps (fst pt) (snd pt)"
  shows "\<forall>pt \<in> set (butlast pts'). inCanvas pt \<and> \<not> reachedSink ps (fst pt) (snd pt)"
  using assms
proof (induction n arbitrary: x y pts)
  case 0
  then show ?case by (auto dest: in_set_butlastD)
next
  case (Suc n)
  from Suc.prems(1) obtain E where E: "computeElectricFieldAtPoint cfg ps x y = Some E"
    by (auto split: option.splits)
  define x' where "x' = x + fst (p5_normalize E) * streamlineStep"
  define y' where "y' = y + snd (p5_normalize E) * streamlineStep"
  consider (weak) "p5_mag E < 0.01"
    | (out) "\<not> p5_mag E < 0.01" "x' < 0 \<or> x' > width \<or> y' < 0 \<or> y' > height"
    | (sink) "\<not> p5_mag E < 0.01" "\<not> (x' < 0 \<or> x' > width \<or> y' < 0 \<or> y' > height)" "reachedSink ps x' y'"
    | (go) "\<not> p5_mag E < 0.01" "\<not> (x' < 0 \<or> x' > width \<or> y' < 0 \<or> y' > height)" "\<not> reachedSink ps x' y'"
    by blast
  then show ?case
  proof cases
    case weak
    with Suc.prems E have "pts' = pts" by simp
    with Suc.prems(2) show ?thesis by (auto dest: in_set_butlastD)
  next
    case out
    with Suc.prems(1) E have "pts' = pts @ [(x', y')]"
      by (simp add: Let_def x'_def y'_def)
    with Suc.prems(2) show ?thesis by simp
  next
    case sink
    with Suc.prems(1) E have "pts' = pts @ [(x', y')]"
      by (simp add: Let_def x'_def y'_def)
    with Suc.prems(2) show ?thesis by simp
  next
    case go
    with Suc.prems(1) E have rec: "traceLoop cfg ps n x' y' (pts @ [(x', y')]) = Some pts'"
      by (simp add: Let_def x'_def y'_def)
    have "\<forall>pt \<in> set (pts @ [(x', y')]). inCanvas pt \<and> \<not> reachedSink ps (fst pt) (snd pt)"
      using Suc.prems(2) go by (auto simp: inCanvas_def)
    from Suc.IH [OF rec this] show ?thesis .
  qed
qed

section \<open>Properties of the force engine\<close>

text \<open>
  \<^bold>\<open>C1\<close> (Newton's third law). Provided no pair divides by zero (\<open>minDistance\<close> is
  positive or no two particles share a position) and no mass is zero, one pass of
  \<open>applyCoulombForces\<close> adds to the accumulator of every particle \<open>i\<close> the sum over
  all \<open>j \<noteq> i\<close> of \<open>forceOn i j / mass\<close>; for \<open>i < j\<close> the force \<open>forceOn i j\<close> is the
  one \<open>pairForce\<close> computes, and for every two distinct indices, whatever the signs of
  the charges, \<open>forceOn j i\<close> is \<open>forceOn i j\<close> multiplied by \<open>-1\<close>: the force on the second
  particle of a pair is the negated force on the first, not a second computation.
\<close>

theorem newton_third_law:
  assumes "0 < minDistance cfg \<or> distinct (map pos ps)" and "\<forall>p \<in> set ps. mass p \<noteq> 0"
  shows "applyCoulombForces cfg ps =
           Some (map (\<lambda>i. (ps ! i)\<lparr>acc := p5_add (acc (ps ! i)) (netAccel cfg ps i)\<rparr>) [0..<length ps])
       \<and> (\<forall>i < length ps. \<forall>j < length ps. i < j \<longrightarrow>
             pairForce cfg (ps ! i) (ps ! j) = Some (forceOn cfg ps i j))
       \<and> (\<forall>i < length ps. \<forall>j < length ps. i \<noteq> j \<longrightarrow>
             forceOn cfg ps j i = p5_mult (forceOn cfg ps i j) (- 1))"
proof (intro conjI allI impI)
  show "applyCoulombForces cfg ps =
           Some (map (\<lambda>i. (ps ! i)\<lparr>acc := p5_add (acc (ps ! i)) (netAccel cfg ps i)\<rparr>) [0..<length ps])"
    using assms by (rule applyCoulombForces_net)
next
  fix i j assume "i < length ps" "j < length ps" "i < j"
  then have "clampedR cfg (ps ! i) (ps ! j) \<noteq> 0"
    using no_fault_pairs [OF assms(1)] by simp
  then show "pairForce cfg (ps ! i) (ps ! j) = Some (forceOn cfg ps i j)"
    using \<open>i < j\<close> by (simp add: pairForce_coulomb forceOn_def)
next
  fix i j :: nat assume "i \<noteq> j"
  then show "forceOn cfg ps j i = p5_mult (forceOn cfg ps i j) (- 1)"
    by (simp add: forceOn_coulomb coulomb_antisym [of cfg "ps ! j" "ps ! i"])
qed

lemma coulomb_on_axis:
  assumes "snd (pos p) = snd (pos q)" and "minDistance cfg \<le> \<bar>fst (pos p) - fst (pos q)\<bar>"
  shows "coulomb cfg p q =
     (kCoulomb cfg * charge p * charge q / (fst (pos p) - fst (pos q))\<^sup>2 * sgn (fst (pos p) - fst (pos q)), 0)"
proof -
  define d where "d = fst (pos p) - fst (pos q)"
  have m: "p5_mag (p5_sub (pos p) (pos q)) = \<bar>d\<bar>"
    by (simp add: p5_sub_def assms(1) p5_mag_on_axis d_def)
  have r: "clampedR cfg p q = \<bar>d\<bar>"
    using assms(2) by (simp add: clampedR_def m Let_def d_def)
  have e: "k * d / (d\<^sup>2 * \<bar>d\<bar>) = k * sgn d / d\<^sup>2" for k :: real
    by (cases d "0 :: real" rule: linorder_cases) (simp_all add: power2_eq_square)
  show ?thesis
    unfolding coulomb_def Let_def r by (simp add: d_def [symmetric] assms(1) e)
qed

text \<open>Two equal charges a hundred units apart repel each other with \<open>0.08\<close>.\<close>

theorem newton_third_law_witness:
  "0 < minDistance defaults
   \<and> pairForce defaults (Particle 100 100 1) (Particle 200 100 1)
       = Some (forceOn defaults [Particle 100 100 1, Particle 200 100 1] 0 1)
   \<and> forceOn defaults [Particle 100 100 1, Particle 200 100 1] 0 1 = (- 0.08, 0)
   \<and> forceOn defaults [Particle 100 100 1, Particle 200 100 1] 1 0 = (0.08, 0)
   \<and> applyCoulombForces defaults [Particle 100 100 1, Particle 200 100 1]
       = Some [(Particle 100 100 1)\<lparr>acc := (- 0.08, 0)\<rparr>, (Particle 200 100 1)\<lparr>acc := (0.08, 0)\<rparr>]"
proof -
  let ?ps = "[Particle 100 100 1, Particle 200 100 1]"
  have h1: "0 < minDistance defaults \<or> distinct (map pos ?ps)" by (simp add: defaults_def)
  have h2: "\<forall>p \<in> set ?ps. mass p \<noteq> 0" by (simp add: Particle_def)
  note th = newton_third_law [OF h1 h2]
  have f01: "forceOn defaults ?ps 0 (Suc 0) = (- 0.08, 0)"
    by (simp add: forceOn_def coulomb_on_axis Particle_def createVector_def defaults_def)
  have "forceOn defaults ?ps (Suc 0) 0 = p5_mult (forceOn defaults ?ps 0 (Suc 0)) (- 1)"
    using th [THEN conjunct2, THEN conjunct2, rule_format, of 0 "Suc 0"] by simp
  then have f10: "forceOn defaults ?ps (Suc 0) 0 = (0.08, 0)"
    by (simp add: f01 p5_mult_def)
  have up: "[0..<length ?ps] = [0, Suc 0]" by (simp add: upt_rec)
  have n0: "netAccel defaults ?ps 0 = (- 0.08, 0)"
    unfolding netAccel_def up by (simp add: f01 p5_add_def) (simp add: Particle_def)
  have n1: "netAccel defaults ?ps (Suc 0) = (0.08, 0)"
    unfolding netAccel_def up by (simp add: f10 p5_add_def) (simp add: Particle_def)
  have "applyCoulombForces defaults ?ps
       = Some [(Particle 100 100 1)\<lparr>acc := (- 0.08, 0)\<rparr>, (Particle 200 100 1)\<lparr>acc := (0.08, 0)\<rparr>]"
    unfolding th [THEN conjunct1] up
    by (simp add: n0 n1) (simp add: Particle_def createVector_def p5_add_def)
  moreover have "pairForce defaults (Particle 100 100 1) (Particle 200 100 1)
      = Some (forceOn defaults ?ps 0 (Suc 0))"
    using th [THEN conjunct2, THEN conjunct1, rule_format, of 0 "Suc 0"] by simp
  ultimately show ?thesis
    using f01 f10 by (simp add: defaults_def)
qed

lemma clampedR_same_pos:
  assumes "pos p = pos q" and "0 < minDistance cfg"
  shows "clampedR cfg p q = minDistance cfg"
  using assms by (simp add: clampedR_def p5_sub_def p5_mag_def)

text \<open>
  Two particles at the same coordinates. The scalar \<^verbatim>\<open>forceMag\<close> is the Coulomb value
  at \<open>r = minDistance\<close>, but the force vector is \<^verbatim>\<open>forceMag\<close> times
  \<open>rVec / minDistance\<close>, and \<open>rVec\<close> is zero: the force applied has magnitude \<open>0\<close>, not
  \<open>|k * charge\<^sub>i * charge\<^sub>j| / minDistance\<^sup>2 = 12.5\<close>.
\<close>

theorem identical_coordinates_counterexample:
  "pos (Particle 100 100 1) = pos (Particle 100 100 (- 1))
   \<and> pairForce defaults (Particle 100 100 1) (Particle 100 100 (- 1)) = Some (0, 0)
   \<and> p5_mag (0, 0) = 0
   \<and> \<bar>kCoulomb defaults * charge (Particle 100 100 1) * charge (Particle 100 100 (- 1))\<bar>
        / (minDistance defaults)\<^sup>2 = 12.5
   \<and> p5_mag (0, 0) \<noteq>
       \<bar>kCoulomb defaults * charge (Particle 100 100 1) * charge (Particle 100 100 (- 1))\<bar>
        / (minDistance defaults)\<^sup>2"
proof -
  have r: "clampedR defaults (Particle 100 100 1) (Particle 100 100 (- 1)) = 8"
    using clampedR_same_pos [of "Particle 100 100 1" "Particle 100 100 (- 1)" defaults]
    by (simp add: Particle_def defaults_def)
  then have "pairForce defaults (Particle 100 100 1) (Particle 100 100 (- 1))
      = Some (coulomb defaults (Particle 100 100 1) (Particle 100 100 (- 1)))"
    by (simp add: pairForce_coulomb)
  also have "coulomb defaults (Particle 100 100 1) (Particle 100 100 (- 1)) = (0, 0)"
    unfolding coulomb_def Let_def r by (simp add: Particle_def createVector_def)
  finally show ?thesis
    by (simp add: p5_mag_on_axis) (simp add: defaults_def Particle_def)
qed

text \<open>
  \<^bold>\<open>C2\<close>, as the code has it. For two particles at identical coordinates, a positive
  \<open>minDistance\<close> and nonzero masses, no division of the pass has a zero divisor (every
  result is \<open>Some\<close>: nothing infinite, no NaN); the scalar \<^verbatim>\<open>forceMag\<close> is
  \<open>kCoulomb * charge\<^sub>i * charge\<^sub>j / minDistance\<^sup>2\<close>; the force vector handed to either
  particle is the zero vector, and the pass leaves both particles as they were.
\<close>

theorem identical_coordinates_clamped:
  assumes "pos p1 = pos p2" and "0 < minDistance cfg" and "mass p1 \<noteq> 0" and "mass p2 \<noteq> 0"
  shows "forceMag cfg p1 p2 = Some (kCoulomb cfg * charge p1 * charge p2 / (minDistance cfg)\<^sup>2)
       \<and> pairForce cfg p1 p2 = Some (0, 0)
       \<and> applyCoulombForces cfg [p1, p2] = Some [p1, p2]"
proof -
  have r: "clampedR cfg p1 p2 = minDistance cfg"
    using assms(1,2) by (rule clampedR_same_pos)
  have nz: "clampedR cfg p1 p2 \<noteq> 0" using r assms(2) by simp
  have fm: "forceMag cfg p1 p2 = Some (kCoulomb cfg * charge p1 * charge p2 / (minDistance cfg)\<^sup>2)"
    using assms(2) by (simp add: forceMag_def r js_div_def power2_eq_square Let_def)
  have c: "coulomb cfg p1 p2 = (0, 0)"
    unfolding coulomb_def Let_def by (simp add: assms(1))
  have pf: "pairForce cfg p1 p2 = Some (0, 0)"
    using pairForce_coulomb [OF nz] by (simp add: c)
  have "interact cfg p1 p2 = Some (p1, p2)"
    using interact_gain [OF nz assms(3,4)]
    by (simp add: accelBy_def c coulomb_antisym [of cfg p2 p1] p5_mult_def)
  then have "applyCoulombForces cfg [p1, p2] = Some [p1, p2]"
    by (simp add: applyCoulombForces_two)
  with fm pf show ?thesis by simp
qed

theorem identical_coordinates_clamped_witness:
  "pos (Particle 100 100 1) = pos (Particle 100 100 (- 1)) \<and> 0 < minDistance defaults
   \<and> forceMag defaults (Particle 100 100 1) (Particle 100 100 (- 1)) = Some (- 12.5)
   \<and> pairForce defaults (Particle 100 100 1) (Particle 100 100 (- 1)) = Some (0, 0)
   \<and> applyCoulombForces defaults [Particle 100 100 1, Particle 100 100 (- 1)]
        = Some [Particle 100 100 1, Particle 100 100 (- 1)]"
proof -
  have h: "pos (Particle 100 100 1) = pos (Particle 100 100 (- 1))" "0 < minDistance defaults"
    "mass (Particle 100 100 1) \<noteq> 0" "mass (Particle 100 100 (- 1)) \<noteq> 0"
    by (simp_all add: Particle_def defaults_def)
  from identical_coordinates_clamped [OF h] h(1,2) show ?thesis
    by (simp add: defaults_def) (simp add: Particle_def)
qed

section \<open>Properties of the motion integrator\<close>

text \<open>
  \<^bold>\<open>C5\<close>. After \<open>update\<close> the position of the particle lies in
  \<open>[0, canvasWidth] \<times> [0, canvasHeight]\<close>. On each axis by itself, a coordinate that
  the integration moved below \<open>0\<close> is set to \<open>0\<close> and one that it moved above the
  extent is set to the extent, in both cases with the velocity component of that axis
  negated; otherwise both are kept. The same bounds hold for every particle after a
  \<open>tick\<close>.
\<close>

theorem update_in_canvas:
  "0 \<le> fst (pos (update cfg p)) \<and> fst (pos (update cfg p)) \<le> canvasWidth \<and>
   0 \<le> snd (pos (update cfg p)) \<and> snd (pos (update cfg p)) \<le> canvasHeight \<and>
   (fst (pos (update cfg p)), fst (vel (update cfg p))) =
     (if fst (pos (advance cfg p)) < 0 then (0, - fst (vel (advance cfg p)))
      else if fst (pos (advance cfg p)) > canvasWidth then (canvasWidth, - fst (vel (advance cfg p)))
      else (fst (pos (advance cfg p)), fst (vel (advance cfg p)))) \<and>
   (snd (pos (update cfg p)), snd (vel (update cfg p))) =
     (if snd (pos (advance cfg p)) < 0 then (0, - snd (vel (advance cfg p)))
      else if snd (pos (advance cfg p)) > canvasHeight then (canvasHeight, - snd (vel (advance cfg p)))
      else (snd (pos (advance cfg p)), snd (vel (advance cfg p)))) \<and>
   (\<forall>ps ps'. tick cfg ps = Some ps' \<longrightarrow>
      (\<forall>p' \<in> set ps'. 0 \<le> fst (pos p') \<and> fst (pos p') \<le> canvasWidth \<and>
                        0 \<le> snd (pos p') \<and> snd (pos p') \<le> canvasHeight))"
proof -
  have "\<forall>ps ps'. tick cfg ps = Some ps' \<longrightarrow>
      (\<forall>p' \<in> set ps'. 0 \<le> fst (pos p') \<and> fst (pos p') \<le> canvasWidth \<and>
                        0 \<le> snd (pos p') \<and> snd (pos p') \<le> canvasHeight)"
    using tick_in_canvas by blast
  then show ?thesis
    by (simp add: update_def handleEdges_cases canvasWidth_def canvasHeight_def)
qed

lemma applyCoulombForces_one: "applyCoulombForces cfg [p] = Some [p]"
  by (simp add: applyCoulombForces_def outerLoop.simps innerLoop.simps)

text \<open>A corner collision: both axes are clamped and reflected in the same tick.\<close>

theorem update_in_canvas_witness:
  "tick (defaults\<lparr>globalFriction := 0\<rparr>) [(Particle 999 1 1)\<lparr>vel := (5, - 5)\<rparr>]
     = Some [(Particle 1000 0 1)\<lparr>vel := (- 5, 5)\<rparr>]
   \<and> pos (advance (defaults\<lparr>globalFriction := 0\<rparr>) ((Particle 999 1 1)\<lparr>vel := (5, - 5)\<rparr>)) = (1004, - 4)
   \<and> 0 \<le> fst (pos ((Particle 1000 0 1)\<lparr>vel := (- 5, 5)\<rparr>))
   \<and> fst (pos ((Particle 1000 0 1)\<lparr>vel := (- 5, 5)\<rparr>)) \<le> canvasWidth
   \<and> 0 \<le> snd (pos ((Particle 1000 0 1)\<lparr>vel := (- 5, 5)\<rparr>))
   \<and> snd (pos ((Particle 1000 0 1)\<lparr>vel := (- 5, 5)\<rparr>)) \<le> canvasHeight"
proof -
  let ?cfg = "defaults\<lparr>globalFriction := 0\<rparr>"
  let ?p = "(Particle 999 1 1)\<lparr>vel := (5, - 5)\<rparr>"
  let ?p' = "(Particle 1000 0 1)\<lparr>vel := (- 5, 5)\<rparr>"
  have a: "pos (advance ?cfg ?p) = (1004, - 4)"
    by (simp add: advance_closed Particle_def createVector_def)
  have t: "tick ?cfg [?p] = Some [?p']"
    by (simp add: tick_def applyCoulombForces_one update_def advance_closed handleEdges_def
        handleEdgesX_def handleEdgesY_def Particle_def createVector_def canvasWidth_def canvasHeight_def)
  from update_in_canvas [of ?cfg ?p, THEN conjunct2, THEN conjunct2, THEN conjunct2, THEN conjunct2,
      THEN conjunct2, THEN conjunct2, rule_format, OF t, of ?p']
  show ?thesis using a t by simp
qed

text \<open>
  \<^bold>\<open>C6\<close>. \<open>update\<close> is the five steps in the specification's order: damp the
  velocity by \<open>1 - globalFriction\<close>, add the accumulated acceleration to it, add the
  new velocity to the position, reset the accumulator, reflect at the boundary. In
  particular the friction multiplies the old velocity only, never the acceleration
  added in this tick.
\<close>

theorem update_order:
  "update cfg p = handleEdges (spec_reset (spec_move (spec_accelerate (spec_damp cfg p))))
   \<and> vel (advance cfg p) = (fst (vel p) * (1 - globalFriction cfg) + fst (acc p),
                            snd (vel p) * (1 - globalFriction cfg) + snd (acc p))
   \<and> pos (advance cfg p) = (fst (pos p) + (fst (vel p) * (1 - globalFriction cfg) + fst (acc p)),
                            snd (pos p) + (snd (vel p) * (1 - globalFriction cfg) + snd (acc p)))
   \<and> acc (update cfg p) = (0, 0)"
  by (simp add: update_def advance_closed handleEdges_cases
      spec_reset_def spec_move_def spec_accelerate_def spec_damp_def)

text \<open>The order is observable: damping after the acceleration gives another velocity.\<close>

lemma friction_after_acceleration_differs:
  "vel (advance (defaults\<lparr>globalFriction := 0.5\<rparr>) ((Particle 10 10 1)\<lparr>acc := (1, 0)\<rparr>)) = (1, 0)
   \<and> vel (spec_damp (defaults\<lparr>globalFriction := 0.5\<rparr>) (spec_accelerate ((Particle 10 10 1)\<lparr>acc := (1, 0)\<rparr>)))
       = (0.5, 0)"
  by (simp add: advance_closed spec_damp_def spec_accelerate_def Particle_def createVector_def)

section \<open>One tick\<close>

text \<open>
  \<^bold>\<open>C8\<close>. Charges \<open>+1\<close> at \<open>(100, 100)\<close> and \<open>-1\<close> at \<open>(200, 100)\<close>,
  \<open>kCoulomb = 800\<close>, \<open>minDistance = 8\<close>, no friction. The force pass gives the positive
  particle the acceleration \<open>(0.08, 0)\<close>: magnitude \<open>800 / 100\<^sup>2\<close>, along the unit
  vector towards \<open>(200, 100)\<close>. After the tick its velocity is \<open>(0.08, 0)\<close>.
\<close>

theorem tick_scenario:
  "applyCoulombForces (defaults\<lparr>globalFriction := 0\<rparr>) [Particle 100 100 1, Particle 200 100 (- 1)]
     = Some [(Particle 100 100 1)\<lparr>acc := (0.08, 0)\<rparr>, (Particle 200 100 (- 1))\<lparr>acc := (- 0.08, 0)\<rparr>]
   \<and> p5_mag (0.08, 0) = 800 / 100\<^sup>2
   \<and> p5_mult (p5_normalize (p5_sub (200, 100) (100, 100))) 0.08 = (0.08, 0)
   \<and> tick (defaults\<lparr>globalFriction := 0\<rparr>) [Particle 100 100 1, Particle 200 100 (- 1)]
     = Some [(Particle 100 100 1)\<lparr>pos := (100.08, 100), vel := (0.08, 0)\<rparr>,
             (Particle 200 100 (- 1))\<lparr>pos := (199.92, 100), vel := (- 0.08, 0)\<rparr>]"
proof (intro conjI)
  show "tick (defaults\<lparr>globalFriction := 0\<rparr>) [Particle 100 100 1, Particle 200 100 (- 1)]
     = Some [(Particle 100 100 1)\<lparr>pos := (100.08, 100), vel := (0.08, 0)\<rparr>,
             (Particle 200 100 (- 1))\<lparr>pos := (199.92, 100), vel := (- 0.08, 0)\<rparr>]"
    by (simp add: tick_def forces_scenario)
       (simp add: update_def advance_def handleEdges_def handleEdgesX_def handleEdgesY_def
         p5_add_def p5_mult_def Particle_def createVector_def canvasWidth_def canvasHeight_def defaults_def)
  show "p5_mult (p5_normalize (p5_sub (200, 100) (100, 100))) 0.08 = (0.08, 0)"
    by (simp add: p5_sub_def p5_normalize_on_axis p5_mult_def)
qed (simp_all add: forces_scenario p5_mag_on_axis)

section \<open>Properties of the field sampler\<close>

text \<open>
  \<^bold>\<open>C3\<close>. For every query point and every particle sequence,
  \<open>computeElectricFieldAtPoint\<close> returns the vector sum, over exactly the particles
  whose squared distance to the point is at least \<open>minDistance\<^sup>2\<close>, of
  \<open>(kCoulomb * charge / r\<^sup>2) * (r_vec / r)\<close>; a nearer particle is skipped and adds
  nothing. The hypothesis excludes the one case in which the sketch divides zero by
  zero: \<open>minDistance = 0\<close> with the query point on a particle.
\<close>

theorem field_is_sum_of_counted:
  assumes "minDistance cfg \<noteq> 0 \<or> (\<forall>p \<in> set ps. pos p \<noteq> (x, y))"
  shows "computeElectricFieldAtPoint cfg ps x y = Some (fieldSum cfg ps x y)"
  using assms by (rule field_total)

text \<open>
  A particle eight units away is counted, one three units away is skipped altogether
  (a clamp to \<open>minDistance\<close> would have added \<open>12.5\<close> for it).
\<close>

theorem field_is_sum_of_counted_witness:
  "minDistance defaults \<noteq> 0
   \<and> counted defaults 108 100 (Particle 100 100 (- 1))
   \<and> \<not> counted defaults 108 100 (Particle 105 100 1)
   \<and> computeElectricFieldAtPoint defaults [Particle 100 100 (- 1), Particle 105 100 1] 108 100
        = Some (- 12.5, 0)"
proof -
  let ?ps = "[Particle 100 100 (- 1), Particle 105 100 1]"
  have h: "minDistance defaults \<noteq> 0" by (simp add: defaults_def)
  have c1: "counted defaults 108 100 (Particle 100 100 (- 1))"
    by (simp add: counted_def sqDist_def Particle_def createVector_def defaults_def)
  have c2: "\<not> counted defaults 108 100 (Particle 105 100 1)"
    by (simp add: counted_def sqDist_def Particle_def createVector_def defaults_def)
  have "contribution defaults 108 100 (Particle 100 100 (- 1)) = (- 12.5, 0)"
    by (subst contribution_on_axis) (simp_all add: Particle_def createVector_def defaults_def)
  then have "fieldSum defaults ?ps 108 100 = (- 12.5, 0)"
    by (simp add: fieldSum_def c1 c2)
  with field_is_sum_of_counted [of defaults ?ps 108 100] h c1 c2 show ?thesis by simp
qed

section \<open>Properties of the streamline tracer\<close>

text \<open>
  \<^bold>\<open>C4\<close>. For every seed point and every particle sequence, \<open>traceStreamline\<close>
  returns, and the sequence it returns has at most \<open>maxStreamlineLen\<close> points.
  (\<open>minDistance \<noteq> 0\<close> keeps the field sampler from dividing zero by zero.)
\<close>

theorem traceStreamline_bounded:
  assumes "minDistance cfg \<noteq> 0"
  shows "\<exists>pts. traceStreamline cfg ps startX startY = Some pts \<and> length pts \<le> maxStreamlineLen"
proof -
  from traceLoop_total [OF assms] obtain pts where
    pts: "traceLoop cfg ps maxStreamlineLen startX startY [] = Some pts" by blast
  from traceLoop_length [OF pts] have "length pts \<le> maxStreamlineLen" by simp
  with pts show ?thesis by (auto simp: traceStreamline_def)
qed

text \<open>A line that leaves the canvas after two of the 600 steps.\<close>

theorem traceStreamline_bounded_witness:
  "minDistance defaults \<noteq> 0
   \<and> (\<exists>pts. traceStreamline defaults [Particle 12 100 1] 3 100 = Some pts \<and> length pts \<le> maxStreamlineLen)
   \<and> traceStreamline defaults [Particle 12 100 1] 3 100 = Some [(0.8, 100), (- 1.4, 100)]"
proof -
  have h: "minDistance defaults \<noteq> 0" by (simp add: defaults_def)
  from traceStreamline_bounded [OF h, of "[Particle 12 100 1]" 3 100] h trace_off_canvas
  show ?thesis by blast
qed

text \<open>
  \<^bold>\<open>C10\<close>. In a sequence that \<open>traceStreamline\<close> returns, every point but the last
  lies on the canvas \<open>[0, width] \<times> [0, height]\<close> and at least \<open>radius + 4\<close> away from
  every negative charge. Nothing is said of the last point: it is pushed before the
  two tests that end the loop.
\<close>

theorem trace_points_before_last:
  assumes "traceStreamline cfg ps startX startY = Some pts"
  shows "\<forall>pt \<in> set (butlast pts).
           0 \<le> fst pt \<and> fst pt \<le> width \<and> 0 \<le> snd pt \<and> snd pt \<le> height \<and>
           (\<forall>p \<in> set ps. charge p < 0 \<longrightarrow>
              radius p + 4 \<le> p5_dist (fst pt) (snd pt) (fst (pos p)) (snd (pos p)))"
proof -
  from assms have "traceLoop cfg ps maxStreamlineLen startX startY [] = Some pts"
    by (simp add: traceStreamline_def)
  from traceLoop_butlast [OF this]
  have "\<forall>pt \<in> set (butlast pts). inCanvas pt \<and> \<not> reachedSink ps (fst pt) (snd pt)"
    by simp
  then have *: "\<forall>pt \<in> set (butlast pts). inCanvas pt \<and> \<not> reachedSink ps (fst pt) (snd pt)" .
  show ?thesis
  proof (intro ballI)
    fix pt assume "pt \<in> set (butlast pts)"
    with * have a: "inCanvas pt" and b: "\<not> reachedSink ps (fst pt) (snd pt)" by auto
    from b have "\<forall>p \<in> set ps. charge p < 0 \<longrightarrow>
        radius p + 4 \<le> p5_dist (fst pt) (snd pt) (fst (pos p)) (snd (pos p))"
      by (auto simp: reachedSink_iff not_less)
    with a show "0 \<le> fst pt \<and> fst pt \<le> width \<and> 0 \<le> snd pt \<and> snd pt \<le> height \<and>
           (\<forall>p \<in> set ps. charge p < 0 \<longrightarrow>
              radius p + 4 \<le> p5_dist (fst pt) (snd pt) (fst (pos p)) (snd (pos p)))"
      by (simp add: inCanvas_def)
  qed
qed

lemma field_two_on_axis:
  assumes "minDistance cfg \<noteq> 0"
    and "snd (pos p) = y" "x \<noteq> fst (pos p)" "counted cfg x y p"
    and "snd (pos q) = y" "x \<noteq> fst (pos q)" "counted cfg x y q"
  shows "computeElectricFieldAtPoint cfg [p, q] x y =
     Some (kCoulomb cfg * charge p / (x - fst (pos p))\<^sup>2 * sgn (x - fst (pos p))
           + kCoulomb cfg * charge q / (x - fst (pos q))\<^sup>2 * sgn (x - fst (pos q)), 0)"
  using assms
  by (simp add: field_total fieldSum_def contribution_on_axis)

lemma trace_past_far_sink:
  "traceStreamline defaults [Particle 12 100 1, Particle 500 100 (- 1)] 3 100
     = Some [(0.8, 100), (- 1.4, 100)]"
proof -
  let ?ps = "[Particle 12 100 1, Particle 500 100 (- 1)]"
  define e1 :: real where "e1 = - (800 / 81) + 800 / 247009"
  define e2 :: real where "e2 = - (800 / 125.44) + 800 / 249200.64"
  have n: "e1 < 0" "e2 < 0" "\<not> \<bar>e1\<bar> < 0.01" "\<not> \<bar>e2\<bar> < 0.01"
    by (simp_all add: e1_def e2_def)
  have f1: "computeElectricFieldAtPoint defaults ?ps 3 100 = Some (e1, 0)"
    by (subst field_two_on_axis)
       (simp_all add: Particle_def createVector_def defaults_def counted_def sqDist_def e1_def)
  have f2: "computeElectricFieldAtPoint defaults ?ps 0.8 100 = Some (e2, 0)"
    by (subst field_two_on_axis)
       (simp_all add: Particle_def createVector_def defaults_def counted_def sqDist_def e2_def
          power2_eq_square)
  have ns: "\<not> reachedSink ?ps 0.8 100"
    by (simp add: Particle_def createVector_def p5_dist_same_y)
  have "traceLoop defaults ?ps (Suc (Suc 598)) 3 100 []
      = traceLoop defaults ?ps (Suc 598) 0.8 100 ([] @ [(0.8, 100)])"
  proof (rule traceLoop_continue [OF f1])
    show "\<not> p5_mag (e1, 0) < 0.01" using n by (simp add: p5_mag_on_axis)
    show "0.8 = 3 + fst (p5_normalize (e1, 0)) * streamlineStep"
      using n by (simp add: p5_normalize_on_axis streamlineStep_def)
    show "100 = 100 + snd (p5_normalize (e1, 0)) * streamlineStep"
      using n by (simp add: p5_normalize_on_axis)
    show "\<not> reachedSink ?ps 0.8 100" by (rule ns)
  qed (simp_all add: width_def height_def canvasWidth_def canvasHeight_def)
  also have "\<dots> = Some (([] @ [(0.8, 100)]) @ [(- 1.4, 100)])"
  proof (rule traceLoop_exit [OF f2])
    show "\<not> p5_mag (e2, 0) < 0.01" using n by (simp add: p5_mag_on_axis)
    show "- 1.4 = 0.8 + fst (p5_normalize (e2, 0)) * streamlineStep"
      using n by (simp add: p5_normalize_on_axis streamlineStep_def)
    show "100 = 100 + snd (p5_normalize (e2, 0)) * streamlineStep"
      using n by (simp add: p5_normalize_on_axis)
  qed simp
  finally show ?thesis by (simp add: traceStreamline_def maxStreamlineLen_Suc)
qed

text \<open>
  The first point is on the canvas and far from the negative charge; the last one is
  off the canvas.
\<close>

theorem trace_points_before_last_witness:
  "traceStreamline defaults [Particle 12 100 1, Particle 500 100 (- 1)] 3 100
     = Some [(0.8, 100), (- 1.4, 100)]
   \<and> 0 \<le> (0.8 :: real) \<and> 0.8 \<le> width \<and> 0 \<le> (100 :: real) \<and> 100 \<le> height
   \<and> radius (Particle 500 100 (- 1)) + 4
        \<le> p5_dist 0.8 100 (fst (pos (Particle 500 100 (- 1)))) (snd (pos (Particle 500 100 (- 1))))
   \<and> \<not> inCanvas (- 1.4, 100)"
proof -
  let ?ps = "[Particle 12 100 1, Particle 500 100 (- 1)]"
  note th = trace_points_before_last [OF trace_past_far_sink]
  have "(0.8, 100) \<in> set (butlast [(0.8 :: real, 100 :: real), (- 1.4, 100)])" by simp
  from th [rule_format, OF this]
  have a: "0 \<le> (0.8 :: real) \<and> 0.8 \<le> width \<and> 0 \<le> (100 :: real) \<and> 100 \<le> height"
    and b: "\<forall>p \<in> set ?ps. charge p < 0 \<longrightarrow>
        radius p + 4 \<le> p5_dist 0.8 100 (fst (pos p)) (snd (pos p))"
    by simp_all
  have "charge (Particle 500 100 (- 1)) < 0" by (simp add: Particle_def)
  with b have "radius (Particle 500 100 (- 1)) + 4
        \<le> p5_dist 0.8 100 (fst (pos (Particle 500 100 (- 1)))) (snd (pos (Particle 500 100 (- 1))))"
    by simp
  with a trace_past_far_sink show ?thesis
    by (simp add: inCanvas_def)
qed

text \<open>
  A lone negative charge and a seed eight units from its centre, inside its sink
  radius of nine units: the field there is not skipped, the tracer advances once,
  pushes the new point and only then finds it inside the sink radius. The line has
  one point, not none.
\<close>

theorem trace_near_negative_charge_counterexample:
  "charge (Particle 100 100 (- 1)) < 0
   \<and> p5_dist 108 100 (fst (pos (Particle 100 100 (- 1)))) (snd (pos (Particle 100 100 (- 1)))) = 8
   \<and> traceStreamline defaults [Particle 100 100 (- 1)] 108 100 = Some [(105.8, 100)]
   \<and> map_option length (traceStreamline defaults [Particle 100 100 (- 1)] 108 100) \<noteq> Some 0"
  by (simp add: trace_into_sink) (simp add: Particle_def createVector_def p5_dist_same_y)

lemma field_inside_minDistance:
  assumes "sqDist x y p < (minDistance cfg)\<^sup>2"
  shows "computeElectricFieldAtPoint cfg [p] x y = Some (0, 0)"
  using assms
  by (simp add: computeElectricFieldAtPoint_def sqDist_def power2_eq_square createVector_def Let_def)

text \<open>
  \<^bold>\<open>C7\<close>, as the code has it. With a single negative charge and no other particle,
  a line traced from a seed whose squared distance to the charge is less than
  \<open>minDistance\<^sup>2\<close> has length 0: the sampler skips the charge, the field is zero and
  the first iteration breaks.
\<close>

theorem trace_inside_minDistance_is_empty:
  assumes "charge p < 0" and "sqDist x y p < (minDistance cfg)\<^sup>2"
  shows "traceStreamline cfg [p] x y = Some []"
  unfolding traceStreamline_def
  by (rule traceLoop_weak [OF field_inside_minDistance [OF assms(2)]]) (simp add: p5_mag_on_axis)

text \<open>The seed at \<open>radius + 1\<close> from the centre, where \<^verbatim>\<open>drawFieldLines\<close> puts its seeds.\<close>

theorem trace_inside_minDistance_is_empty_witness:
  "charge (Particle 100 100 (- 1)) < 0
   \<and> sqDist 106 100 (Particle 100 100 (- 1)) < (minDistance defaults)\<^sup>2
   \<and> traceStreamline defaults [Particle 100 100 (- 1)] 106 100 = Some []"
proof -
  have h: "charge (Particle 100 100 (- 1)) < 0"
    "sqDist 106 100 (Particle 100 100 (- 1)) < (minDistance defaults)\<^sup>2"
    by (simp_all add: Particle_def sqDist_def createVector_def defaults_def)
  from trace_inside_minDistance_is_empty [OF h] h show ?thesis by simp
qed

section \<open>Properties of hit test and deletion\<close>

text \<open>
  \<^bold>\<open>C9\<close>. \<open>getParticleAt\<close> returns \<open>None\<close> exactly when no particle is hit, and
  otherwise the hit particle of least index (the oldest). \<open>deleteParticleAt\<close> leaves
  the sequence as it is when no particle is hit, and otherwise removes exactly the
  hit particle of greatest index (the newest). A particle is hit when its centre is
  less than \<open>radius + 2\<close> from the point.
\<close>

theorem particle_scan_orders:
  "(getParticleAt ps x y = None \<longleftrightarrow> (\<forall>p \<in> set ps. \<not> hit x y p)) \<and>
   (\<forall>p. getParticleAt ps x y = Some p \<longleftrightarrow>
        (\<exists>i < length ps. ps ! i = p \<and> hit x y p \<and> (\<forall>k < i. \<not> hit x y (ps ! k)))) \<and>
   ((\<forall>p \<in> set ps. \<not> hit x y p) \<longrightarrow> deleteParticleAt ps x y = ps) \<and>
   (\<forall>i < length ps. hit x y (ps ! i) \<and> (\<forall>k. i < k \<and> k < length ps \<longrightarrow> \<not> hit x y (ps ! k)) \<longrightarrow>
        deleteParticleAt ps x y = take i ps @ drop (Suc i) ps)"
  using getParticleAt_None [of ps x y] getParticleAt_Some [of ps x y] getParticleAt_first [of _ ps x y]
    deleteParticleAt_none [of ps x y] deleteParticleAt_last [of _ ps x y]
  by blast

text \<open>Two overlapping particles: the query returns the older, the deletion removes the newer.\<close>

theorem particle_scan_orders_witness:
  "hit 11 10 (Particle 10 10 1) \<and> hit 11 10 (Particle 12 10 (- 1)) \<and> \<not> hit 11 10 (Particle 50 50 1)
   \<and> getParticleAt [Particle 10 10 1, Particle 12 10 (- 1), Particle 50 50 1] 11 10 = Some (Particle 10 10 1)
   \<and> deleteParticleAt [Particle 10 10 1, Particle 12 10 (- 1), Particle 50 50 1] 11 10
        = [Particle 10 10 1, Particle 50 50 1]
   \<and> deleteParticleAt [Particle 50 50 1] 11 10 = [Particle 50 50 1]
   \<and> getParticleAt [Particle 50 50 1] 11 10 = None"
proof -
  let ?ps = "[Particle 10 10 1, Particle 12 10 (- 1), Particle 50 50 1]"
  have h1: "hit 11 10 (Particle 10 10 1)" and h2: "hit 11 10 (Particle 12 10 (- 1))"
    by (simp_all add: hit_def Particle_def createVector_def p5_dist_same_y)
  have "39 * 39 \<le> (50 - 11) * (50 - 11) + (50 - 10) * (50 - 10 :: real)" by simp
  then have "sqrt (39 * 39) \<le> p5_dist 11 10 50 50"
    unfolding p5_dist_def by (rule real_sqrt_le_mono)
  then have h3: "\<not> hit 11 10 (Particle 50 50 1)"
    by (simp add: hit_def Particle_def createVector_def)
  note th = particle_scan_orders [of ?ps 11 10]
  have g: "getParticleAt ?ps 11 10 = Some (Particle 10 10 1)"
    using th [THEN conjunct2, THEN conjunct1, rule_format, of "Particle 10 10 1"] h1
    by (auto intro: exI [of _ 0])
  have nk: "\<forall>k. 1 < k \<and> k < length ?ps \<longrightarrow> \<not> hit 11 10 (?ps ! k)"
  proof (intro allI impI)
    fix k assume "1 < k \<and> k < length ?ps"
    then have "k = 2" by simp
    with h3 show "\<not> hit 11 10 (?ps ! k)" by simp
  qed
  have d: "deleteParticleAt ?ps 11 10 = take 1 ?ps @ drop (Suc 1) ?ps"
    by (rule th [THEN conjunct2, THEN conjunct2, THEN conjunct2, rule_format, of 1])
       (use h2 nk in simp_all)
  note th' = particle_scan_orders [of "[Particle 50 50 1]" 11 10]
  have d': "deleteParticleAt [Particle 50 50 1] 11 10 = [Particle 50 50 1]"
    using th' [THEN conjunct2, THEN conjunct2, THEN conjunct1] h3 by simp
  have g': "getParticleAt [Particle 50 50 1] 11 10 = None"
    using th' [THEN conjunct1] h3 by simp
  from h1 h2 h3 g d d' g' show ?thesis by simp
qed

end
